theory Spec2Isabelle
  imports Complex_Main "HOL-Library.Sublist" "HOL-Library.Multiset" "HOL-Library.Product_Lexorder"
begin

text \<open>
  The weekly report of \<^verbatim>\<open>build.js\<close>: the selection of the reference gameweek, the grouping
  of its fixtures by date, the six player rankings and the page built from them. The
  first half of the theory is the model of the script, the second half the properties
  of the model.
\<close>

section \<open>Snapshot model\<close>

text \<open>
  The build script \<^verbatim>\<open>build.js\<close> reads the provider payload as plain JavaScript objects.
  Each object shape the pipeline reads is a record here; the field names are the
  provider's (those the script dereferences), with a suffix where a name is already a HOL
  constant. Identifiers and counters are JavaScript numbers holding integers, so they are
  \<open>int\<close>. The flags \<^verbatim>\<open>is_next\<close>, \<^verbatim>\<open>is_current\<close> and \<^verbatim>\<open>finished\<close> are booleans.
  A timestamp is the instant \<^verbatim>\<open>new Date(s)\<close> denotes, in milliseconds since the epoch.
\<close>

record gameweek =
  id_ev :: int
  name_ev :: string
  deadline_time :: int
  is_next :: bool
  is_current :: bool
  finished :: bool

record fpl_team =
  id_tm :: int
  short_name :: string

text \<open>
  A fixture's \<^verbatim>\<open>event\<close> is the id of its gameweek, or \<^verbatim>\<open>null\<close> while it is not scheduled
  into one.
\<close>

record fixture =
  id_fx :: int
  event :: "int option"
  team_h :: int
  team_a :: int
  kickoff_time :: int

text \<open>
  \<^verbatim>\<open>selected_by_percent\<close> and \<^verbatim>\<open>form\<close> arrive as strings (\<^verbatim>\<open>"34.7"\<close>); \<^verbatim>\<open>status\<close> is a
  one-letter code and \<^verbatim>\<open>element_type\<close> the position code.
\<close>

record player =
  id_pl :: int
  web_name :: string
  team :: int
  element_type :: int
  status :: string
  news :: string
  selected_by_percent :: string
  form :: string
  transfers_in_event :: int
  transfers_out_event :: int
  cost_change_event :: int

text \<open>The object \<^verbatim>\<open>data\<close> handed to \<^verbatim>\<open>buildHTML\<close>, after its two destructurings.\<close>

record snapshot =
  bootstrap_elements :: "player list"
  bootstrap_teams :: "fpl_team list"
  bootstrap_events :: "gameweek list"
  data_fixtures :: "fixture list"

section \<open>Gameweek selector\<close>

text \<open>
  \<^verbatim>\<open>
  function getCurrentGameweek(events) {
    let gw = events.find(e => e.is_next);
    if (gw) return gw;
    gw = events.find(e => e.is_current);
    if (gw) return gw;
    return events.find(e => !e.finished) || events[events.length - 1];
  }
  \<close>
  \<^verbatim>\<open>Array.prototype.find\<close> yields the first element satisfying the predicate, or
  \<^verbatim>\<open>undefined\<close>; it is \<^const>\<open>List.find\<close>, with \<open>None\<close> for \<^verbatim>\<open>undefined\<close>. An object is
  truthy, so \<^verbatim>\<open>if (gw)\<close> and \<^verbatim>\<open>||\<close> test for \<^verbatim>\<open>undefined\<close> only. Reading index
  \<^verbatim>\<open>length - 1\<close> of an empty array yields \<^verbatim>\<open>undefined\<close>: the function then returns
  \<^verbatim>\<open>undefined\<close> (here \<open>None\<close>); it has no \<^verbatim>\<open>throw\<close>.
\<close>

definition getCurrentGameweek :: "gameweek list \<Rightarrow> gameweek option" where
  "getCurrentGameweek events =
     (case List.find (\<lambda>e. is_next e) events of
        Some gw \<Rightarrow> Some gw
      | None \<Rightarrow>
          (case List.find (\<lambda>e. is_current e) events of
             Some gw \<Rightarrow> Some gw
           | None \<Rightarrow>
               (case List.find (\<lambda>e. \<not> finished e) events of
                  Some gw \<Rightarrow> Some gw
                | None \<Rightarrow> (if events = [] then None else Some (events ! (length events - 1))))))"

section \<open>JavaScript numbers, \<^verbatim>\<open>parseFloat\<close> and \<^verbatim>\<open>Array.prototype.sort\<close>\<close>

text \<open>
  A JavaScript number is \<^verbatim>\<open>NaN\<close>, an infinity or a finite value. Finite values are exact
  rationals here: the rounding of a decimal literal to a binary double, and its overflow
  to an infinity, are not modelled (they are invisible for literals of up to 15
  significant digits, such as the provider's one-decimal percentages). The integers of
  the snapshot are far below the range in which a double stops being exact.
\<close>

datatype jsnum = NaN | Fin rat | PInf | NInf

text \<open>The operator \<^verbatim>\<open>-\<close> on numbers.\<close>

fun js_sub :: "jsnum \<Rightarrow> jsnum \<Rightarrow> jsnum" where
  "js_sub NaN _ = NaN"
| "js_sub _ NaN = NaN"
| "js_sub (Fin a) (Fin b) = Fin (a - b)"
| "js_sub (Fin a) PInf = NInf"
| "js_sub (Fin a) NInf = PInf"
| "js_sub PInf PInf = NaN"
| "js_sub PInf _ = PInf"
| "js_sub NInf NInf = NaN"
| "js_sub NInf _ = NInf"

text \<open>The operator \<^verbatim>\<open>>\<close> on numbers: every comparison with \<^verbatim>\<open>NaN\<close> is false.\<close>

fun js_gt :: "jsnum \<Rightarrow> jsnum \<Rightarrow> bool" where
  "js_gt NaN _ = False"
| "js_gt _ NaN = False"
| "js_gt (Fin a) (Fin b) = (a > b)"
| "js_gt PInf PInf = False"
| "js_gt PInf _ = True"
| "js_gt NInf _ = False"
| "js_gt (Fin a) PInf = False"
| "js_gt (Fin a) NInf = True"

text \<open>
  \<^verbatim>\<open>parseFloat(s)\<close> skips leading white space and converts the longest prefix of the rest
  that is a decimal literal: an optional sign, then \<^verbatim>\<open>Infinity\<close> or digits with an
  optional fraction and an optional exponent (at least one digit before or after the
  point). Without such a prefix the result is \<^verbatim>\<open>NaN\<close>. White space is the ASCII part of
  the language's white space.
\<close>

definition is_ws :: "char \<Rightarrow> bool" where
  "is_ws c = (c \<in> set [CHR 0x09, CHR 0x0A, CHR 0x0B, CHR 0x0C, CHR 0x0D, CHR '' ''])"

definition is_digit :: "char \<Rightarrow> bool" where
  "is_digit c = (c \<in> set ''0123456789'')"

definition digit_val :: "char \<Rightarrow> nat" where
  "digit_val c = of_char c - 48"

definition digits_val :: "string \<Rightarrow> nat" where
  "digits_val ds = foldl (\<lambda>n c. 10 * n + digit_val c) 0 ds"

definition pow10 :: "int \<Rightarrow> rat" where
  "pow10 e = (if 0 \<le> e then 10 ^ nat e else 1 / 10 ^ nat (- e))"

text \<open>
  The exponent part after the mantissa: \<^verbatim>\<open>e\<close> or \<^verbatim>\<open>E\<close>, an optional sign and at least one
  digit; anything else is not part of the literal, and the exponent is 0.
\<close>

definition exponent_part :: "string \<Rightarrow> int" where
  "exponent_part r =
     (case r of
        [] \<Rightarrow> 0
      | c # r' \<Rightarrow>
          if c = CHR ''e'' \<or> c = CHR ''E'' then
            (case r' of
               [] \<Rightarrow> 0
             | s # r'' \<Rightarrow>
                 if s = CHR ''-'' then - int (digits_val (takeWhile is_digit r''))
                 else if s = CHR ''+'' then int (digits_val (takeWhile is_digit r''))
                 else int (digits_val (takeWhile is_digit r')))
          else 0)"

definition parseFloat :: "string \<Rightarrow> jsnum" where
  "parseFloat s =
     (let t = dropWhile is_ws s;
          neg = (take 1 t = ''-'');
          u = (if take 1 t = ''-'' \<or> take 1 t = ''+'' then drop 1 t else t)
      in if take 8 u = ''Infinity'' then (if neg then NInf else PInf)
         else
           let ip = takeWhile is_digit u;
               r = dropWhile is_digit u;
               dot = (take 1 r = ''.'');
               fp = (if dot then takeWhile is_digit (drop 1 r) else []);
               r2 = (if dot then dropWhile is_digit (drop 1 r) else r)
           in if ip = [] \<and> fp = [] then NaN
              else Fin ((if neg then - 1 else 1) * rat_of_nat (digits_val (ip @ fp))
                        * pow10 (exponent_part r2 - int (length fp))))"

text \<open>
  \<^verbatim>\<open>xs.sort(cmp)\<close>. The language requires the sort to be stable and, for a comparator
  that orders the elements consistently, to leave \<open>a\<close> before \<open>b\<close> unless \<^verbatim>\<open>cmp(a, b) > 0\<close>
  (a result of \<^verbatim>\<open>NaN\<close> counts as 0). The engine's algorithm is not part of the repository;
  the model is the insertion sort with exactly this behaviour: each element, from the
  last to the first, is put in front of the elements already placed, moving behind the
  ones the comparator puts it after.
\<close>

fun sort_insert :: "('a \<Rightarrow> 'a \<Rightarrow> jsnum) \<Rightarrow> 'a \<Rightarrow> 'a list \<Rightarrow> 'a list" where
  "sort_insert cmp x [] = [x]"
| "sort_insert cmp x (y # ys) =
     (if js_gt (cmp x y) (Fin 0) then y # sort_insert cmp x ys else x # y # ys)"

definition js_sort :: "('a \<Rightarrow> 'a \<Rightarrow> jsnum) \<Rightarrow> 'a list \<Rightarrow> 'a list" where
  "js_sort cmp xs = foldr (sort_insert cmp) xs []"

text \<open>The difference of two integer-valued numbers, as a number.\<close>

definition int_diff :: "int \<Rightarrow> int \<Rightarrow> jsnum" where
  "int_diff a b = Fin (of_int (a - b))"

section \<open>Fixture grouping\<close>

text \<open>
  \<^verbatim>\<open>
  const gwFixtures = fixtures.filter(f => f.event === currentGW.id);
  const fixturesByDate = {};
  gwFixtures.forEach(f => {
    const date = new Date(f.kickoff_time).toDateString();
    if (!fixturesByDate[date]) fixturesByDate[date] = [];
    fixturesByDate[date].push(f);
  });
  Object.values(fixturesByDate).forEach(dayFixtures => {
    dayFixtures.sort((a, b) => new Date(a.kickoff_time) - new Date(b.kickoff_time));
  });
  \<close>
  \<^verbatim>\<open>toDateString()\<close> prints the calendar date of an instant in the time zone of the machine
  that runs the script (\<^verbatim>\<open>"Sat Feb 07 2026"\<close>). The machine's zone is a parameter: the
  offset from UTC, in milliseconds, in force at an instant. The printed date determines
  and is determined by the number of the local day, which stands for the string.
\<close>

type_synonym tz = "int \<Rightarrow> int"

definition toDateString :: "tz \<Rightarrow> int \<Rightarrow> int" where
  "toDateString tz t = (t + tz t) div 86400000"

definition gwFixtures :: "gameweek \<Rightarrow> fixture list \<Rightarrow> fixture list" where
  "gwFixtures currentGW fixtures = filter (\<lambda>f. event f = Some (id_ev currentGW)) fixtures"

text \<open>
  \<^verbatim>\<open>fixturesByDate\<close> is an object whose keys are date strings; its entries are enumerated
  in the order in which the keys were created. It is an association list in that order.
  One round of the first \<^verbatim>\<open>forEach\<close>: the fixture is pushed onto the array of its date,
  which is created at the end of the object when the date is new.
\<close>

fun push_date :: "int \<Rightarrow> fixture \<Rightarrow> (int \<times> fixture list) list \<Rightarrow> (int \<times> fixture list) list" where
  "push_date date f [] = [(date, [f])]"
| "push_date date f ((k, dayFixtures) # rest) =
     (if k = date then (k, dayFixtures @ [f]) # rest
      else (k, dayFixtures) # push_date date f rest)"

definition group_fixtures :: "tz \<Rightarrow> fixture list \<Rightarrow> (int \<times> fixture list) list" where
  "group_fixtures tz fs =
     foldl (\<lambda>obj f. push_date (toDateString tz (kickoff_time f)) f obj) [] fs"

definition kickoff_cmp :: "fixture \<Rightarrow> fixture \<Rightarrow> jsnum" where
  "kickoff_cmp a b = int_diff (kickoff_time a) (kickoff_time b)"

definition fixturesByDate :: "tz \<Rightarrow> fixture list \<Rightarrow> (int \<times> fixture list) list" where
  "fixturesByDate tz fs =
     map (\<lambda>(date, dayFixtures). (date, js_sort kickoff_cmp dayFixtures)) (group_fixtures tz fs)"

section \<open>Rankings\<close>

text \<open>
  \<^verbatim>\<open>
  const topTransfersIn = [...players]
    .sort((a, b) => b.transfers_in_event - a.transfers_in_event).slice(0, 5);
  const topTransfersOut = [...players]
    .sort((a, b) => b.transfers_out_event - a.transfers_out_event).slice(0, 5);
  const formPlayers = [...players]
    .filter(p => parseFloat(p.selected_by_percent) > 2 && parseFloat(p.form) > 0)
    .sort((a, b) => parseFloat(b.form) - parseFloat(a.form)).slice(0, 5);
  const injuries = players
    .filter(p => p.status !== 'a' && parseFloat(p.selected_by_percent) > 3)
    .sort((a, b) => parseFloat(b.selected_by_percent) - parseFloat(a.selected_by_percent))
    .slice(0, 8);
  const priceRisers = [...players].filter(p => p.cost_change_event > 0)
    .sort((a, b) => b.cost_change_event - a.cost_change_event).slice(0, 5);
  const priceFallers = [...players].filter(p => p.cost_change_event < 0)
    .sort((a, b) => a.cost_change_event - b.cost_change_event).slice(0, 5);
  \<close>
  \<^verbatim>\<open>slice(0, n)\<close> is \<^const>\<open>take\<close>. The copies and the in-place sorts are the subject of the
  store model further down; here each ranking is the value it computes.
\<close>

definition transfers_in_cmp :: "player \<Rightarrow> player \<Rightarrow> jsnum" where
  "transfers_in_cmp a b = int_diff (transfers_in_event b) (transfers_in_event a)"

definition transfers_out_cmp :: "player \<Rightarrow> player \<Rightarrow> jsnum" where
  "transfers_out_cmp a b = int_diff (transfers_out_event b) (transfers_out_event a)"

definition form_filter :: "player \<Rightarrow> bool" where
  "form_filter p =
     (js_gt (parseFloat (selected_by_percent p)) (Fin 2) \<and> js_gt (parseFloat (form p)) (Fin 0))"

definition form_cmp :: "player \<Rightarrow> player \<Rightarrow> jsnum" where
  "form_cmp a b = js_sub (parseFloat (form b)) (parseFloat (form a))"

definition injuries_filter :: "player \<Rightarrow> bool" where
  "injuries_filter p =
     (status p \<noteq> ''a'' \<and> js_gt (parseFloat (selected_by_percent p)) (Fin 3))"

definition injuries_cmp :: "player \<Rightarrow> player \<Rightarrow> jsnum" where
  "injuries_cmp a b =
     js_sub (parseFloat (selected_by_percent b)) (parseFloat (selected_by_percent a))"

definition risers_cmp :: "player \<Rightarrow> player \<Rightarrow> jsnum" where
  "risers_cmp a b = int_diff (cost_change_event b) (cost_change_event a)"

definition fallers_cmp :: "player \<Rightarrow> player \<Rightarrow> jsnum" where
  "fallers_cmp a b = int_diff (cost_change_event a) (cost_change_event b)"

definition topTransfersIn :: "player list \<Rightarrow> player list" where
  "topTransfersIn players = take 5 (js_sort transfers_in_cmp players)"

definition topTransfersOut :: "player list \<Rightarrow> player list" where
  "topTransfersOut players = take 5 (js_sort transfers_out_cmp players)"

definition formPlayers :: "player list \<Rightarrow> player list" where
  "formPlayers players = take 5 (js_sort form_cmp (filter form_filter players))"

definition injuries :: "player list \<Rightarrow> player list" where
  "injuries players = take 8 (js_sort injuries_cmp (filter injuries_filter players))"

definition priceRisers :: "player list \<Rightarrow> player list" where
  "priceRisers players =
     take 5 (js_sort risers_cmp (filter (\<lambda>p. cost_change_event p > 0) players))"

definition priceFallers :: "player list \<Rightarrow> player list" where
  "priceFallers players =
     take 5 (js_sort fallers_cmp (filter (\<lambda>p. cost_change_event p < 0) players))"

section \<open>The generated page\<close>

text \<open>
  \<^verbatim>\<open>getTeamName\<close> looks a team up by id; the two literal tables of \<^verbatim>\<open>buildHTML\<close> map a
  status code to a symbol and a position code to a label. The symbols are emoji in the
  source and constructors here.
  \<^verbatim>\<open>
  function getTeamName(teams, id) {
    const team = teams.find(t => t.id === id);
    return team ? team.short_name : '???';
  }
  const statusEmoji = { 'a': .., 'd': .., 'i': .., 's': .., 'u': .. };
  const positionName = { 1: 'GKP', 2: 'DEF', 3: 'MID', 4: 'FWD' };
  \<close>
\<close>

definition getTeamName :: "fpl_team list \<Rightarrow> int \<Rightarrow> string" where
  "getTeamName teams i =
     (case List.find (\<lambda>t. id_tm t = i) teams of
        Some t \<Rightarrow> short_name t
      | None \<Rightarrow> ''???'')"

datatype emoji =
  CheckMark | WarningSign | HeadBandage | RedSquare | CrossMark | QuestionMark
  | Inherited string

definition statusEmoji :: "string \<Rightarrow> emoji option" where
  "statusEmoji = map_of
     [(''a'', CheckMark), (''d'', WarningSign), (''i'', HeadBandage),
      (''s'', RedSquare), (''u'', CrossMark)]"

definition positionName :: "int \<Rightarrow> string option" where
  "positionName = map_of [(1, ''GKP''), (2, ''DEF''), (3, ''MID''), (4, ''FWD'')]"

text \<open>
  The template prints \<^verbatim>\<open>statusEmoji[p.status] || (question mark)\<close> and
  \<^verbatim>\<open>${positionName[p.element_type]}\<close>; a missing label prints as the text
  \<^verbatim>\<open>undefined\<close>. A lookup in an object literal also finds the members every object
  inherits: for a status that is the name of one of them the template prints that member
  (\<open>Inherited\<close>), not the fallback.
\<close>

definition object_prototype_keys :: "string list" where
  "object_prototype_keys =
     [''constructor'', ''__defineGetter__'', ''__defineSetter__'', ''hasOwnProperty'',
      ''__lookupGetter__'', ''__lookupSetter__'', ''isPrototypeOf'', ''propertyIsEnumerable'',
      ''toString'', ''valueOf'', ''__proto__'', ''toLocaleString'']"

definition status_symbol :: "player \<Rightarrow> emoji" where
  "status_symbol p =
     (case statusEmoji (status p) of
        Some e \<Rightarrow> e
      | None \<Rightarrow>
          if status p \<in> set object_prototype_keys then Inherited (status p) else QuestionMark)"

definition position_label :: "player \<Rightarrow> string" where
  "position_label p =
     (case positionName (element_type p) of Some s \<Rightarrow> s | None \<Rightarrow> ''undefined'')"

text \<open>
  \<^verbatim>\<open>formatKickoff\<close> prints the time of day of the kickoff in the machine's time zone,
  followed by the text \<^verbatim>\<open>UTC\<close>:
  \<^verbatim>\<open>
  return d.toLocaleTimeString('en-GB', { hour: '2-digit', minute: '2-digit',
                                         hour12: false }) + ' UTC';
  \<close>
  The minute of the local day stands for the printed \<^verbatim>\<open>HH:MM\<close>.
\<close>

definition formatKickoff :: "tz \<Rightarrow> int \<Rightarrow> int" where
  "formatKickoff tz t = ((t + tz t) mod 86400000) div 60000"

text \<open>
  The page, as the data the template interpolates: one row per entry of each section, in
  the order of the section's list. The countdown, the build time and the hand-written
  section depend on the clock and on a file; they are not part of the model.
\<close>

type_synonym fixture_row = "int \<times> int \<times> string \<times> string"
type_synonym injury_row = "emoji \<times> string \<times> string \<times> string \<times> string"
type_synonym transfer_row = "string \<times> string \<times> int"
type_synonym form_row = "string \<times> string \<times> string \<times> string"
type_synonym price_row = "string \<times> int"

record page =
  gw_name :: string
  gw_deadline :: int
  fixture_days :: "(int \<times> fixture_row list) list"
  injury_rows :: "injury_row list"
  transfers_in_rows :: "transfer_row list"
  transfers_out_rows :: "transfer_row list"
  form_rows :: "form_row list"
  riser_rows :: "price_row list"
  faller_rows :: "price_row list"

definition fixture_row :: "tz \<Rightarrow> fpl_team list \<Rightarrow> fixture \<Rightarrow> fixture_row" where
  "fixture_row tz teams f =
     (kickoff_time f, formatKickoff tz (kickoff_time f),
      getTeamName teams (team_h f), getTeamName teams (team_a f))"

definition injury_row :: "fpl_team list \<Rightarrow> player \<Rightarrow> injury_row" where
  "injury_row teams p =
     (status_symbol p, web_name p, getTeamName teams (team p), selected_by_percent p, news p)"

definition transfer_in_row :: "player \<Rightarrow> transfer_row" where
  "transfer_in_row p = (position_label p, web_name p, transfers_in_event p)"

definition transfer_out_row :: "player \<Rightarrow> transfer_row" where
  "transfer_out_row p = (position_label p, web_name p, transfers_out_event p)"

definition form_row :: "fpl_team list \<Rightarrow> player \<Rightarrow> form_row" where
  "form_row teams p = (position_label p, web_name p, getTeamName teams (team p), form p)"

definition price_row :: "player \<Rightarrow> price_row" where
  "price_row p = (web_name p, cost_change_event p)"

text \<open>
  \<^verbatim>\<open>buildHTML\<close> dereferences \<^verbatim>\<open>currentGW\<close>: its \<^verbatim>\<open>id\<close> in the fixture filter, its
  \<^verbatim>\<open>name\<close> and \<^verbatim>\<open>deadline_time\<close> in the template. When the selector has returned
  \<^verbatim>\<open>undefined\<close> the first of these reads throws a \<^verbatim>\<open>TypeError\<close>, the only exception the
  function can raise on a well-typed snapshot; no page is produced.
\<close>

datatype js_error = TypeError

definition buildHTML :: "tz \<Rightarrow> snapshot \<Rightarrow> js_error + page" where
  "buildHTML tz data =
     (let players = bootstrap_elements data; teams = bootstrap_teams data
      in case getCurrentGameweek (bootstrap_events data) of
           None \<Rightarrow> Inl TypeError
         | Some currentGW \<Rightarrow>
             Inr \<lparr>gw_name = name_ev currentGW,
                  gw_deadline = deadline_time currentGW,
                  fixture_days =
                    map (\<lambda>(date, dayFixtures). (date, map (fixture_row tz teams) dayFixtures))
                      (fixturesByDate tz (gwFixtures currentGW (data_fixtures data))),
                  injury_rows = map (injury_row teams) (injuries players),
                  transfers_in_rows = map transfer_in_row (topTransfersIn players),
                  transfers_out_rows = map transfer_out_row (topTransfersOut players),
                  form_rows = map (form_row teams) (formPlayers players),
                  riser_rows = map price_row (priceRisers players),
                  faller_rows = map price_row (priceFallers players)\<rparr>)"

text \<open>
  What \<^verbatim>\<open>main\<close> prints, given that the download and the file writes succeed: a fixed
  line after each step, or the failure caught from \<^verbatim>\<open>buildHTML\<close>, after which the process
  exits with status 1.
\<close>

datatype log_line =
  FetchingData | DataFetched | HtmlGenerated | WrittenIndex | RawDataSaved | BuildComplete
  | BuildFailed js_error

definition main_log :: "tz \<Rightarrow> snapshot \<Rightarrow> log_line list" where
  "main_log tz data =
     (case buildHTML tz data of
        Inl e \<Rightarrow> [FetchingData, DataFetched, BuildFailed e]
      | Inr html \<Rightarrow>
          [FetchingData, DataFetched, HtmlGenerated, WrittenIndex, RawDataSaved, BuildComplete])"

section \<open>The store: arrays by reference\<close>

text \<open>
  In the script an array is a reference: \<^verbatim>\<open>sort\<close> and \<^verbatim>\<open>push\<close> change the array they are
  called on, while \<^verbatim>\<open>[...xs]\<close>, \<^verbatim>\<open>filter\<close> and \<^verbatim>\<open>slice\<close> build a new one. A store of arrays
  of one element type is the list of the arrays allocated so far; the address of an array
  is its index, and a new array is put at the end. The elements are the snapshot's
  objects; the script never assigns to a property of any of them, so they are values.
\<close>

type_synonym 'a arrays = "'a list list"

definition arr_new :: "'a list \<Rightarrow> 'a arrays \<Rightarrow> nat \<times> 'a arrays" where
  "arr_new xs h = (length h, h @ [xs])"

definition arr_spread :: "nat \<Rightarrow> 'a arrays \<Rightarrow> nat \<times> 'a arrays" where
  "arr_spread a h = arr_new (h ! a) h"

definition arr_filter :: "('a \<Rightarrow> bool) \<Rightarrow> nat \<Rightarrow> 'a arrays \<Rightarrow> nat \<times> 'a arrays" where
  "arr_filter P a h = arr_new (filter P (h ! a)) h"

definition arr_slice :: "nat \<Rightarrow> nat \<Rightarrow> 'a arrays \<Rightarrow> nat \<times> 'a arrays" where
  "arr_slice n a h = arr_new (take n (h ! a)) h"

text \<open>\<^verbatim>\<open>sort\<close> returns the reference it was called on; \<^verbatim>\<open>push\<close> appends in place.\<close>

definition arr_sort :: "('a \<Rightarrow> 'a \<Rightarrow> jsnum) \<Rightarrow> nat \<Rightarrow> 'a arrays \<Rightarrow> 'a arrays" where
  "arr_sort cmp a h = h[a := js_sort cmp (h ! a)]"

definition arr_push :: "nat \<Rightarrow> 'a \<Rightarrow> 'a arrays \<Rightarrow> 'a arrays" where
  "arr_push a x h = h[a := h ! a @ [x]]"

text \<open>
  The six rankings as the script computes them, on the array at address \<open>players\<close>. Five
  of them copy the array first; \<^verbatim>\<open>injuries\<close> filters it directly. Each returns the address
  of its result.
\<close>

definition topTransfersIn_st :: "nat \<Rightarrow> player arrays \<Rightarrow> nat \<times> player arrays" where
  "topTransfersIn_st players h =
     (let (c, h1) = arr_spread players h;
          h2 = arr_sort transfers_in_cmp c h1
      in arr_slice 5 c h2)"

definition topTransfersOut_st :: "nat \<Rightarrow> player arrays \<Rightarrow> nat \<times> player arrays" where
  "topTransfersOut_st players h =
     (let (c, h1) = arr_spread players h;
          h2 = arr_sort transfers_out_cmp c h1
      in arr_slice 5 c h2)"

definition formPlayers_st :: "nat \<Rightarrow> player arrays \<Rightarrow> nat \<times> player arrays" where
  "formPlayers_st players h =
     (let (c, h1) = arr_spread players h;
          (f, h2) = arr_filter form_filter c h1;
          h3 = arr_sort form_cmp f h2
      in arr_slice 5 f h3)"

definition injuries_st :: "nat \<Rightarrow> player arrays \<Rightarrow> nat \<times> player arrays" where
  "injuries_st players h =
     (let (f, h1) = arr_filter injuries_filter players h;
          h2 = arr_sort injuries_cmp f h1
      in arr_slice 8 f h2)"

definition priceRisers_st :: "nat \<Rightarrow> player arrays \<Rightarrow> nat \<times> player arrays" where
  "priceRisers_st players h =
     (let (c, h1) = arr_spread players h;
          (f, h2) = arr_filter (\<lambda>p. cost_change_event p > 0) c h1;
          h3 = arr_sort risers_cmp f h2
      in arr_slice 5 f h3)"

definition priceFallers_st :: "nat \<Rightarrow> player arrays \<Rightarrow> nat \<times> player arrays" where
  "priceFallers_st players h =
     (let (c, h1) = arr_spread players h;
          (f, h2) = arr_filter (\<lambda>p. cost_change_event p < 0) c h1;
          h3 = arr_sort fallers_cmp f h2
      in arr_slice 5 f h3)"

text \<open>
  The object \<^verbatim>\<open>fixturesByDate\<close> maps a date to the address of that day's array. One round
  of the first \<^verbatim>\<open>forEach\<close> creates the day's array when the date has none, and pushes the
  fixture onto the day's array; the second \<^verbatim>\<open>forEach\<close> sorts each day's array in place.
\<close>

definition group_step ::
  "tz \<Rightarrow> (int \<times> nat) list \<times> fixture arrays \<Rightarrow> fixture \<Rightarrow> (int \<times> nat) list \<times> fixture arrays" where
  "group_step tz st f =
     (let (obj, h) = st; date = toDateString tz (kickoff_time f)
      in case map_of obj date of
           None \<Rightarrow> (let (a, h1) = arr_new [] h in (obj @ [(date, a)], arr_push a f h1))
         | Some a \<Rightarrow> (obj, arr_push a f h))"

definition sort_days :: "(int \<times> nat) list \<Rightarrow> fixture arrays \<Rightarrow> fixture arrays" where
  "sort_days obj h = foldl (\<lambda>h' (date, a). arr_sort kickoff_cmp a h') h obj"

definition fixturesByDate_st ::
  "tz \<Rightarrow> nat \<Rightarrow> fixture arrays \<Rightarrow> (int \<times> nat) list \<times> fixture arrays" where
  "fixturesByDate_st tz gwF h =
     (let (obj, h1) = foldl (group_step tz) ([], h) (h ! gwF)
      in (obj, sort_days obj h1))"

text \<open>The arrays an object of addresses refers to.\<close>

definition read_obj :: "'a arrays \<Rightarrow> ('k \<times> nat) list \<Rightarrow> ('k \<times> 'a list) list" where
  "read_obj h obj = map (\<lambda>(k, a). (k, h ! a)) obj"

text \<open>
  The whole store, the addresses of the snapshot's four arrays, and the addresses
  \<^verbatim>\<open>buildHTML\<close> holds in its constants once the rankings are computed.
\<close>

record store =
  player_arrays :: "player arrays"
  team_arrays :: "fpl_team arrays"
  gameweek_arrays :: "gameweek arrays"
  fixture_arrays :: "fixture arrays"

record snapshot_refs =
  players_ref :: nat
  teams_ref :: nat
  events_ref :: nat
  fixtures_ref :: nat

record pipeline_refs =
  currentGW_val :: gameweek
  gwFixtures_ref :: nat
  fixturesByDate_obj :: "(int \<times> nat) list"
  topTransfersIn_ref :: nat
  topTransfersOut_ref :: nat
  formPlayers_ref :: nat
  injuries_ref :: nat
  priceRisers_ref :: nat
  priceFallers_ref :: nat

text \<open>
  The part of \<^verbatim>\<open>buildHTML\<close> that computes, as a program on the store. A run that throws
  returns the error alone: whatever it did before the throw is a step of the run below.
\<close>

definition buildHTML_st :: "tz \<Rightarrow> snapshot_refs \<Rightarrow> store \<Rightarrow> js_error + pipeline_refs \<times> store" where
  "buildHTML_st tz r s =
     (case getCurrentGameweek (gameweek_arrays s ! events_ref r) of
        None \<Rightarrow> Inl TypeError
      | Some currentGW \<Rightarrow>
          (let (gwF, fa1) = arr_filter (\<lambda>f. event f = Some (id_ev currentGW)) (fixtures_ref r)
                              (fixture_arrays s);
               (obj, fa2) = fixturesByDate_st tz gwF fa1;
               (tin, pa1) = topTransfersIn_st (players_ref r) (player_arrays s);
               (tout, pa2) = topTransfersOut_st (players_ref r) pa1;
               (frm, pa3) = formPlayers_st (players_ref r) pa2;
               (inj, pa4) = injuries_st (players_ref r) pa3;
               (ris, pa5) = priceRisers_st (players_ref r) pa4;
               (fal, pa6) = priceFallers_st (players_ref r) pa5
           in Inr (\<lparr>currentGW_val = currentGW, gwFixtures_ref = gwF, fixturesByDate_obj = obj,
                     topTransfersIn_ref = tin, topTransfersOut_ref = tout,
                     formPlayers_ref = frm, injuries_ref = inj,
                     priceRisers_ref = ris, priceFallers_ref = fal\<rparr>,
                   s\<lparr>player_arrays := pa6, fixture_arrays := fa2\<rparr>)))"

text \<open>The snapshot a store holds at the given addresses.\<close>

definition snapshot_at :: "snapshot_refs \<Rightarrow> store \<Rightarrow> snapshot" where
  "snapshot_at r s =
     \<lparr>bootstrap_elements = player_arrays s ! players_ref r,
      bootstrap_teams = team_arrays s ! teams_ref r,
      bootstrap_events = gameweek_arrays s ! events_ref r,
      data_fixtures = fixture_arrays s ! fixtures_ref r\<rparr>"

definition valid_refs :: "snapshot_refs \<Rightarrow> store \<Rightarrow> bool" where
  "valid_refs r s =
     (players_ref r < length (player_arrays s) \<and> teams_ref r < length (team_arrays s)
      \<and> events_ref r < length (gameweek_arrays s) \<and> fixtures_ref r < length (fixture_arrays s))"

section \<open>Notions for the statements and the proofs\<close>

text \<open>The position of the first element satisfying a predicate, as the claims speak of it.\<close>

definition first_at :: "('a \<Rightarrow> bool) \<Rightarrow> 'a list \<Rightarrow> nat \<Rightarrow> bool" where
  "first_at P xs i = (i < length xs \<and> P (xs ! i) \<and> list_all (\<lambda>y. \<not> P y) (take i xs))"

text \<open>The dates of a list in the order of their first occurrence.\<close>

definition first_seen :: "'a list \<Rightarrow> 'a list" where
  "first_seen xs = rev (remdups (rev xs))"






text \<open>
  What a step on a store of arrays is to establish: the arrays that existed before are
  all still there, unchanged, and the address it returns holds the value \<open>v\<close>.
\<close>

definition yields :: "'a arrays \<Rightarrow> nat \<times> 'a arrays \<Rightarrow> 'a list \<Rightarrow> bool" where
  "yields h r v = (prefix h (snd r) \<and> fst r < length (snd r) \<and> snd r ! fst r = v)"

text \<open>
  The invariant of the two loops over the fixtures, for the proofs: the store extends the
  store \<open>h0\<close> the loop started from, every address in the object was allocated after
  \<open>h0\<close>, and no date and no address occurs twice in the object.
\<close>

definition obj_inv :: "'a arrays \<Rightarrow> ('k \<times> nat) list \<Rightarrow> 'a arrays \<Rightarrow> bool" where
  "obj_inv h0 obj h =
     (prefix h0 h \<and> list_all (\<lambda>(d, a). length h0 \<le> a \<and> a < length h) obj
      \<and> distinct (map fst obj) \<and> distinct (map snd obj))"

section \<open>Sample data\<close>

text \<open>
  Two machine time zones, UTC and one hour east of it; a snapshot with no data at all; a
  gameweek with its id and its three flags; a player with id, status, ownership, form,
  transfers in and out and price change; a fixture with id, gameweek and kickoff.
\<close>

definition utc :: tz where
  "utc t = 0"

definition utc_plus_1 :: tz where
  "utc_plus_1 t = 3600000"

definition no_data :: snapshot where
  "no_data =
     \<lparr>bootstrap_elements = [], bootstrap_teams = [], bootstrap_events = [], data_fixtures = []\<rparr>"

definition gw :: "int \<Rightarrow> bool \<Rightarrow> bool \<Rightarrow> bool \<Rightarrow> gameweek" where
  "gw i nx cur fin =
     \<lparr>id_ev = i, name_ev = ''Gameweek'', deadline_time = 0,
      is_next = nx, is_current = cur, finished = fin\<rparr>"

definition pl :: "int \<Rightarrow> string \<Rightarrow> string \<Rightarrow> string \<Rightarrow> int \<Rightarrow> int \<Rightarrow> int \<Rightarrow> player" where
  "pl i st sel frm tin tout cc =
     \<lparr>id_pl = i, web_name = ''Player'', team = 1, element_type = 3, status = st, news = [],
      selected_by_percent = sel, form = frm, transfers_in_event = tin,
      transfers_out_event = tout, cost_change_event = cc\<rparr>"

definition fx :: "int \<Rightarrow> int option \<Rightarrow> int \<Rightarrow> fixture" where
  "fx i ev t = \<lparr>id_fx = i, event = ev, team_h = 1, team_a = 2, kickoff_time = t\<rparr>"

text \<open>Three players, the second and the third with equal transfers in.\<close>

definition three_players :: "player list" where
  "three_players =
     [pl 1 ''a'' ''10.0'' ''3.0'' 100 50 0,
      pl 2 ''a'' ''5.0'' ''4.5'' 300 70 1,
      pl 3 ''d'' ''20.0'' ''0.0'' 300 10 0]"


text \<open>
  Sample fixtures of gameweek 1, all on the day the epoch starts: the first and the third
  kick off together, after the second.
\<close>

definition tied_fixtures :: "fixture list" where
  "tied_fixtures = [fx 1 (Some 1) 7200000, fx 2 (Some 1) 3600000, fx 3 (Some 1) 7200000]"

text \<open>
  Two fixtures of gameweek 1 listed with the later day first; and a list as the provider
  sends it, in kickoff order, with a fixture of no gameweek and one of gameweek 2.
\<close>

definition later_first :: "fixture list" where
  "later_first = [fx 1 (Some 1) 90000000, fx 2 (Some 1) 3600000]"

definition listed_fixtures :: "fixture list" where
  "listed_fixtures =
     [fx 1 (Some 1) 3600000, fx 2 (Some 1) 7200000, fx 3 None 7200000,
      fx 4 (Some 1) 90000000, fx 5 (Some 2) 180000000]"

text \<open>
  Two fixtures around midnight UTC on 7 February 2026: kickoffs at 23:30 and, an hour
  later, at 00:30 on the 8th (days 20491 and 20492 of the epoch).
\<close>

definition midnight_fixtures :: "fixture list" where
  "midnight_fixtures = [fx 1 (Some 1) 1770507000000, fx 2 (Some 1) 1770510600000]"





text \<open>A store holding the sample snapshot, each of its four arrays at address 0.\<close>

definition sample_store :: store where
  "sample_store =
     \<lparr>player_arrays = [three_players], team_arrays = [[]],
      gameweek_arrays = [[gw 1 True False False]], fixture_arrays = [tied_fixtures]\<rparr>"

definition sample_refs :: snapshot_refs where
  "sample_refs = \<lparr>players_ref = 0, teams_ref = 0, events_ref = 0, fixtures_ref = 0\<rparr>"

section \<open>Properties of the gameweek selector\<close>

lemma none_before_iff:
  assumes "i < length xs"
  shows "list_all (\<lambda>y. \<not> P y) (take i xs) \<longleftrightarrow> (\<forall>j<i. \<not> P (xs ! j))"
proof
  assume a: "list_all (\<lambda>y. \<not> P y) (take i xs)"
  show "\<forall>j<i. \<not> P (xs ! j)"
  proof (intro allI impI)
    fix j assume j: "j < i"
    with assms have "take i xs ! j \<in> set (take i xs)"
      by (intro nth_mem) simp
    with a j show "\<not> P (xs ! j)"
      by (simp add: list_all_iff)
  qed
next
  assume a: "\<forall>j<i. \<not> P (xs ! j)"
  show "list_all (\<lambda>y. \<not> P y) (take i xs)"
    unfolding list_all_iff
  proof
    fix y assume "y \<in> set (take i xs)"
    then obtain j where "j < length (take i xs)" "take i xs ! j = y"
      unfolding in_set_conv_nth by blast
    then have "j < i" "xs ! j = y" by simp_all
    with a show "\<not> P y" by blast
  qed
qed

lemma find_first_at:
  "List.find P xs = Some x \<longleftrightarrow> (\<exists>i. first_at P xs i \<and> x = xs ! i)"
  unfolding find_Some_iff first_at_def
  using none_before_iff [of _ xs P] by blast

lemma find_exists: "\<exists>x\<in>set xs. P x \<Longrightarrow> \<exists>x. List.find P xs = Some x"
proof -
  assume "\<exists>x\<in>set xs. P x"
  then have "List.find P xs \<noteq> None"
    unfolding find_None_iff by blast
  then show ?thesis by blast
qed

lemma find_none: "\<forall>x\<in>set xs. \<not> P x \<Longrightarrow> List.find P xs = None"
  unfolding find_None_iff by blast

text \<open>
  Claim C1. On a non-empty list the selector returns the first gameweek flagged
  \<open>is_next\<close> if there is one; otherwise the first flagged \<open>is_current\<close> if there is one;
  otherwise the first that is not \<open>finished\<close>; otherwise the last gameweek of the list.
  Each rule applies only when all earlier rules find nothing.
\<close>

theorem getCurrentGameweek_priority:
  assumes "events \<noteq> []"
  shows "((\<exists>e\<in>set events. is_next e) \<longrightarrow>
            (\<exists>i. first_at is_next events i \<and> getCurrentGameweek events = Some (events ! i)))
       \<and> ((\<forall>e\<in>set events. \<not> is_next e) \<and> (\<exists>e\<in>set events. is_current e) \<longrightarrow>
            (\<exists>i. first_at is_current events i \<and> getCurrentGameweek events = Some (events ! i)))
       \<and> ((\<forall>e\<in>set events. \<not> is_next e \<and> \<not> is_current e) \<and> (\<exists>e\<in>set events. \<not> finished e) \<longrightarrow>
            (\<exists>i. first_at (\<lambda>e. \<not> finished e) events i
                 \<and> getCurrentGameweek events = Some (events ! i)))
       \<and> ((\<forall>e\<in>set events. \<not> is_next e \<and> \<not> is_current e \<and> finished e) \<longrightarrow>
            getCurrentGameweek events = Some (last events))"
proof (intro conjI impI)
  assume "\<exists>e\<in>set events. is_next e"
  then obtain x where x: "List.find is_next events = Some x"
    using find_exists [of events is_next] by blast
  then obtain i where i: "first_at is_next events i" "x = events ! i"
    unfolding find_first_at by blast
  have "getCurrentGameweek events = Some x"
    using x by (simp add: getCurrentGameweek_def)
  with i show "\<exists>i. first_at is_next events i \<and> getCurrentGameweek events = Some (events ! i)"
    by blast
next
  assume a: "(\<forall>e\<in>set events. \<not> is_next e) \<and> (\<exists>e\<in>set events. is_current e)"
  then have n: "List.find is_next events = None"
    by (simp add: find_none)
  from a obtain x where x: "List.find is_current events = Some x"
    using find_exists [of events is_current] by blast
  then obtain i where i: "first_at is_current events i" "x = events ! i"
    unfolding find_first_at by blast
  have "getCurrentGameweek events = Some x"
    using x n by (simp add: getCurrentGameweek_def)
  with i show "\<exists>i. first_at is_current events i \<and> getCurrentGameweek events = Some (events ! i)"
    by blast
next
  assume a: "(\<forall>e\<in>set events. \<not> is_next e \<and> \<not> is_current e) \<and> (\<exists>e\<in>set events. \<not> finished e)"
  then have n: "List.find is_next events = None" "List.find is_current events = None"
    by (simp_all add: find_none)
  from a obtain x where x: "List.find (\<lambda>e. \<not> finished e) events = Some x"
    using find_exists [of events "\<lambda>e. \<not> finished e"] by blast
  then obtain i where i: "first_at (\<lambda>e. \<not> finished e) events i" "x = events ! i"
    unfolding find_first_at by blast
  have "getCurrentGameweek events = Some x"
    using x n by (simp add: getCurrentGameweek_def)
  with i show "\<exists>i. first_at (\<lambda>e. \<not> finished e) events i
      \<and> getCurrentGameweek events = Some (events ! i)"
    by blast
next
  assume a: "\<forall>e\<in>set events. \<not> is_next e \<and> \<not> is_current e \<and> finished e"
  then have "List.find is_next events = None" "List.find is_current events = None"
    "List.find (\<lambda>e. \<not> finished e) events = None"
    by (simp_all add: find_none)
  with assms show "getCurrentGameweek events = Some (last events)"
    by (simp add: getCurrentGameweek_def last_conv_nth)
qed

theorem getCurrentGameweek_priority_witness:
  "([gw 1 False True False, gw 2 True False False] \<noteq> []
      \<and> (\<exists>e\<in>set [gw 1 False True False, gw 2 True False False]. is_next e)
      \<and> getCurrentGameweek [gw 1 False True False, gw 2 True False False]
          = Some (gw 2 True False False))
   \<and> (list_all (\<lambda>e. \<not> is_next e) [gw 1 False True False]
      \<and> (\<exists>e\<in>set [gw 1 False True False]. is_current e)
      \<and> getCurrentGameweek [gw 1 False True False] = Some (gw 1 False True False))
   \<and> (list_all (\<lambda>e. \<not> is_next e \<and> \<not> is_current e) [gw 1 False False True, gw 2 False False False]
      \<and> (\<exists>e\<in>set [gw 1 False False True, gw 2 False False False]. \<not> finished e)
      \<and> getCurrentGameweek [gw 1 False False True, gw 2 False False False]
          = Some (gw 2 False False False))
   \<and> (list_all (\<lambda>e. \<not> is_next e \<and> \<not> is_current e \<and> finished e)
          [gw 1 False False True, gw 2 False False True]
      \<and> getCurrentGameweek [gw 1 False False True, gw 2 False False True]
          = Some (gw 2 False False True))"
proof -
  have fa: "first_at P [a, b] i \<longleftrightarrow> (i = 0 \<and> P a) \<or> (i = 1 \<and> P b \<and> \<not> P a)" for P and a b :: gameweek and i
    by (cases i; cases "i - 1") (auto simp: first_at_def)
  have fb: "first_at P [a] i \<longleftrightarrow> (i = 0 \<and> P a)" for P and a :: gameweek and i
    by (cases i) (auto simp: first_at_def)
  have 1: "getCurrentGameweek [gw 1 False True False, gw 2 True False False]
          = Some (gw 2 True False False)"
    using getCurrentGameweek_priority [of "[gw 1 False True False, gw 2 True False False]"]
    by (auto simp: fa gw_def)
  have 2: "getCurrentGameweek [gw 1 False True False] = Some (gw 1 False True False)"
    using getCurrentGameweek_priority [of "[gw 1 False True False]"]
    by (auto simp: fb gw_def)
  have 3: "getCurrentGameweek [gw 1 False False True, gw 2 False False False]
          = Some (gw 2 False False False)"
    using getCurrentGameweek_priority [of "[gw 1 False False True, gw 2 False False False]"]
    by (auto simp: fa gw_def)
  have 4: "getCurrentGameweek [gw 1 False False True, gw 2 False False True]
          = Some (gw 2 False False True)"
    using getCurrentGameweek_priority [of "[gw 1 False False True, gw 2 False False True]"]
    by (simp add: gw_def)
  show ?thesis
    using 1 2 3 4 by (simp add: gw_def)
qed

section \<open>Failure of the selector\<close>

lemma find_mem: "List.find P xs = Some x \<Longrightarrow> x \<in> set xs"
  unfolding find_Some_iff using nth_mem [of _ xs] by blast

lemma getCurrentGameweek_None: "getCurrentGameweek events = None \<longleftrightarrow> events = []"
  by (simp add: getCurrentGameweek_def split: option.splits)

lemma getCurrentGameweek_mem:
  assumes "getCurrentGameweek events = Some g"
  shows "g \<in> set events"
proof (cases "List.find is_next events")
  case (Some a)
  with assms have "a = g" by (simp add: getCurrentGameweek_def)
  with Some show ?thesis using find_mem [of is_next events a] by simp
next
  case n1: None
  show ?thesis
  proof (cases "List.find is_current events")
    case (Some a)
    with assms n1 have "a = g" by (simp add: getCurrentGameweek_def)
    with Some show ?thesis using find_mem [of is_current events a] by simp
  next
    case n2: None
    show ?thesis
    proof (cases "List.find (\<lambda>e. \<not> finished e) events")
      case (Some a)
      with assms n1 n2 have "a = g" by (simp add: getCurrentGameweek_def)
      with Some show ?thesis using find_mem [of "\<lambda>e. \<not> finished e" events a] by simp
    next
      case None
      with assms n1 n2 have "events \<noteq> []" "g = events ! (length events - 1)"
        by (auto simp: getCurrentGameweek_def split: if_splits)
      then show ?thesis by simp
    qed
  qed
qed

text \<open>
  Claim C2, as stated, at the empty list: the selector does not fail. It returns
  \<^verbatim>\<open>undefined\<close>; the run then ends in the \<^verbatim>\<open>TypeError\<close> that \<^verbatim>\<open>buildHTML\<close> raises when it
  reads the id of the result, which \<^verbatim>\<open>main\<close> prints as a failed build. There is no
  error of its own for an empty list of gameweeks.
\<close>

theorem getCurrentGameweek_empty_counterexample:
  "getCurrentGameweek [] = None \<and> buildHTML utc no_data = Inl TypeError
   \<and> main_log utc no_data = [FetchingData, DataFetched, BuildFailed TypeError]"
  by (simp add: getCurrentGameweek_def buildHTML_def main_log_def no_data_def)

text \<open>
  Claim C2, amended. The selector returns \<^verbatim>\<open>undefined\<close> exactly when the list is empty, and
  for every non-empty list it returns a gameweek of the list. \<^verbatim>\<open>buildHTML\<close> fails, with a
  \<^verbatim>\<open>TypeError\<close>, exactly when the snapshot has no gameweek, and produces the page
  otherwise.
\<close>

theorem getCurrentGameweek_undefined_iff_empty:
  "(getCurrentGameweek events = None \<longleftrightarrow> events = [])
   \<and> (events \<noteq> [] \<longrightarrow> (\<exists>g\<in>set events. getCurrentGameweek events = Some g))
   \<and> (buildHTML tz data = Inl TypeError \<longleftrightarrow> bootstrap_events data = [])
   \<and> (bootstrap_events data \<noteq> [] \<longrightarrow> (\<exists>html. buildHTML tz data = Inr html))"
proof (intro conjI impI)
  show "getCurrentGameweek events = None \<longleftrightarrow> events = []"
    by (rule getCurrentGameweek_None)
next
  assume "events \<noteq> []"
  then obtain g where g: "getCurrentGameweek events = Some g"
    using getCurrentGameweek_None [of events] by (cases "getCurrentGameweek events") simp_all
  then have "g \<in> set events" by (rule getCurrentGameweek_mem)
  with g show "\<exists>g\<in>set events. getCurrentGameweek events = Some g" by blast
next
  show "buildHTML tz data = Inl TypeError \<longleftrightarrow> bootstrap_events data = []"
    using getCurrentGameweek_None [of "bootstrap_events data"]
    by (cases "getCurrentGameweek (bootstrap_events data)") (simp_all add: buildHTML_def Let_def)
next
  assume "bootstrap_events data \<noteq> []"
  then show "\<exists>html. buildHTML tz data = Inr html"
    using getCurrentGameweek_None [of "bootstrap_events data"]
    by (cases "getCurrentGameweek (bootstrap_events data)") (simp_all add: buildHTML_def Let_def)
qed

theorem getCurrentGameweek_undefined_iff_empty_witness:
  "[gw 1 False True False] \<noteq> []
   \<and> (\<exists>g\<in>set [gw 1 False True False]. getCurrentGameweek [gw 1 False True False] = Some g)
   \<and> (\<exists>html. buildHTML utc (no_data\<lparr>bootstrap_events := [gw 1 False True False]\<rparr>) = Inr html)"
  using getCurrentGameweek_undefined_iff_empty
    [of "[gw 1 False True False]" utc "no_data\<lparr>bootstrap_events := [gw 1 False True False]\<rparr>"]
  by (simp add: no_data_def)

section \<open>Properties of the sort\<close>

lemma mset_sort_insert: "mset (sort_insert cmp x ys) = add_mset x (mset ys)"
  by (induction ys) simp_all

lemma mset_js_sort: "mset (js_sort cmp xs) = mset xs"
  by (induction xs) (simp_all add: js_sort_def mset_sort_insert)


lemma set_js_sort: "set (js_sort cmp xs) = set xs"
  using mset_js_sort [of cmp xs] by (metis set_mset_mset)

lemma sort_insert_insort_key:
  fixes key :: "'a \<Rightarrow> 'k::linorder"
  assumes "\<forall>y\<in>set ys. js_gt (cmp x y) (Fin 0) \<longleftrightarrow> key y < key x"
  shows "sort_insert cmp x ys = insort_key key x ys"
  using assms by (induction ys) auto

lemma js_sort_sort_key:
  fixes key :: "'a \<Rightarrow> 'k::linorder"
  assumes "\<forall>x\<in>set xs. \<forall>y\<in>set xs. js_gt (cmp x y) (Fin 0) \<longleftrightarrow> key y < key x"
  shows "js_sort cmp xs = sort_key key xs"
  using assms
proof (induction xs)
  case Nil
  show ?case by (simp add: js_sort_def)
next
  case (Cons x xs)
  then have ih: "js_sort cmp xs = sort_key key xs" by simp
  have "js_sort cmp (x # xs) = sort_insert cmp x (js_sort cmp xs)"
    by (simp add: js_sort_def)
  also have "\<dots> = sort_insert cmp x (sort_key key xs)"
    by (simp only: ih)
  also have "\<dots> = insort_key key x (sort_key key xs)"
    using Cons.prems by (intro sort_insert_insort_key) simp
  finally show ?case by simp
qed

text \<open>
  For a comparator that compares by a key, the result of the sort does not depend on the
  algorithm: every stable, sorted rearrangement of the input is the list the model
  computes.
\<close>

lemma js_sort_unique:
  fixes key :: "'a \<Rightarrow> 'k::linorder"
  assumes "\<forall>x\<in>set xs. \<forall>y\<in>set xs. js_gt (cmp x y) (Fin 0) \<longleftrightarrow> key y < key x"
    and "mset ys = mset xs"
    and "sorted (map key ys)"
    and "\<And>k. filter (\<lambda>x. key x = k) ys = filter (\<lambda>x. key x = k) xs"
  shows "ys = js_sort cmp xs"
proof -
  have "filter (\<lambda>x. key k = key x) ys = filter (\<lambda>x. key k = key x) xs" for k
    using assms(4) [of "key k"] by (simp add: eq_commute)
  with assms(2,3) have "sort_key key xs = ys"
    by (intro properties_for_sort_key) simp_all
  moreover have "js_sort cmp xs = sort_key key xs"
    using assms(1) by (rule js_sort_sort_key)
  ultimately show ?thesis by simp
qed

lemma int_diff_pos: "js_gt (int_diff a b) (Fin 0) \<longleftrightarrow> b < a"
  by (simp add: int_diff_def)





section \<open>Properties of the fixture grouping\<close>

lemma first_seen_snoc:
  "first_seen (xs @ [d]) = (if d \<in> set xs then first_seen xs else first_seen xs @ [d])"
  by (simp add: first_seen_def)

lemma set_first_seen: "set (first_seen xs) = set xs"
  by (simp add: first_seen_def)

lemma distinct_first_seen: "distinct (first_seen xs)"
  by (simp add: first_seen_def)

lemma push_date_notin:
  "d \<notin> set ks \<Longrightarrow> push_date d f (map (\<lambda>k. (k, F k)) ks) = map (\<lambda>k. (k, F k)) ks @ [(d, [f])]"
  by (induction ks) auto

lemma push_date_in:
  "distinct ks \<Longrightarrow> d \<in> set ks \<Longrightarrow>
   push_date d f (map (\<lambda>k. (k, F k)) ks) = map (\<lambda>k. (k, if k = d then F k @ [f] else F k)) ks"
proof (induction ks)
  case Nil
  then show ?case by simp
next
  case (Cons k ks)
  show ?case
  proof (cases "k = d")
    case True
    with Cons.prems have "d \<notin> set ks" by simp
    then have "map (\<lambda>k. (k, if k = d then F k @ [f] else F k)) ks = map (\<lambda>k. (k, F k)) ks"
      by (intro map_cong) auto
    with True show ?thesis by simp
  next
    case False
    with Cons show ?thesis by simp
  qed
qed

lemma group_fixtures_snoc:
  "group_fixtures tz (fs @ [f]) = push_date (toDateString tz (kickoff_time f)) f (group_fixtures tz fs)"
  by (simp add: group_fixtures_def)

lemma group_fixtures_eq:
  "group_fixtures tz fs =
     map (\<lambda>d. (d, filter (\<lambda>f. toDateString tz (kickoff_time f) = d) fs))
       (first_seen (map (\<lambda>f. toDateString tz (kickoff_time f)) fs))"
proof (induction fs rule: rev_induct)
  case Nil
  show ?case by (simp add: group_fixtures_def first_seen_def)
next
  case (snoc f fs)
  let ?date = "\<lambda>f. toDateString tz (kickoff_time f)"
  let ?ks = "first_seen (map ?date fs)"
  let ?F = "\<lambda>d. filter (\<lambda>f. ?date f = d) fs"
  have step: "group_fixtures tz (fs @ [f]) = push_date (?date f) f (map (\<lambda>d. (d, ?F d)) ?ks)"
    unfolding group_fixtures_snoc snoc.IH ..
  show ?case
  proof (cases "?date f \<in> set (map ?date fs)")
    case True
    then have mem: "?date f \<in> set ?ks" by (simp add: set_first_seen)
    have a: "push_date (?date f) f (map (\<lambda>d. (d, ?F d)) ?ks)
        = map (\<lambda>k. (k, if k = ?date f then ?F k @ [f] else ?F k)) ?ks"
      using distinct_first_seen [of "map ?date fs"] mem by (rule push_date_in)
    have b: "map (\<lambda>k. (k, if k = ?date f then ?F k @ [f] else ?F k)) ?ks
        = map (\<lambda>d. (d, filter (\<lambda>g. ?date g = d) (fs @ [f]))) ?ks"
      by (intro map_cong) auto
    have c: "first_seen (map ?date (fs @ [f])) = ?ks"
      using True by (simp add: first_seen_snoc)
    have "group_fixtures tz (fs @ [f]) = push_date (?date f) f (map (\<lambda>d. (d, ?F d)) ?ks)"
      by (rule step)
    also have "\<dots> = map (\<lambda>k. (k, if k = ?date f then ?F k @ [f] else ?F k)) ?ks"
      by (rule a)
    also have "\<dots> = map (\<lambda>d. (d, filter (\<lambda>g. ?date g = d) (fs @ [f]))) ?ks"
      by (rule b)
    also have "\<dots> = map (\<lambda>d. (d, filter (\<lambda>g. ?date g = d) (fs @ [f])))
        (first_seen (map ?date (fs @ [f])))"
      by (simp only: c)
    finally show ?thesis .
  next
    case False
    then have nmem: "?date f \<notin> set ?ks" by (simp add: set_first_seen)
    have "?date x \<noteq> ?date f" if "x \<in> set fs" for x
    proof
      assume eq: "?date x = ?date f"
      have "?date x \<in> set (map ?date fs)"
        unfolding set_map using that by (rule imageI)
      with eq False show False by simp
    qed
    then have empty: "?F (?date f) = []"
      unfolding filter_empty_conv by blast
    have a: "push_date (?date f) f (map (\<lambda>d. (d, ?F d)) ?ks)
        = map (\<lambda>d. (d, ?F d)) ?ks @ [(?date f, [f])]"
      using nmem by (rule push_date_notin)
    have b: "map (\<lambda>d. (d, ?F d)) ?ks = map (\<lambda>d. (d, filter (\<lambda>g. ?date g = d) (fs @ [f]))) ?ks"
      using nmem by (intro map_cong) auto
    have c: "first_seen (map ?date (fs @ [f])) = ?ks @ [?date f]"
      using False by (simp add: first_seen_snoc)
    have d: "map (\<lambda>d. (d, filter (\<lambda>g. ?date g = d) (fs @ [f]))) (?ks @ [?date f])
        = map (\<lambda>d. (d, filter (\<lambda>g. ?date g = d) (fs @ [f]))) ?ks @ [(?date f, [f])]"
      using empty by simp
    have "group_fixtures tz (fs @ [f]) = push_date (?date f) f (map (\<lambda>d. (d, ?F d)) ?ks)"
      by (rule step)
    also have "\<dots> = map (\<lambda>d. (d, ?F d)) ?ks @ [(?date f, [f])]"
      by (rule a)
    also have "\<dots> = map (\<lambda>d. (d, filter (\<lambda>g. ?date g = d) (fs @ [f]))) ?ks @ [(?date f, [f])]"
      by (simp only: b)
    also have "\<dots> = map (\<lambda>d. (d, filter (\<lambda>g. ?date g = d) (fs @ [f]))) (?ks @ [?date f])"
      by (simp only: d)
    also have "\<dots> = map (\<lambda>d. (d, filter (\<lambda>g. ?date g = d) (fs @ [f])))
        (first_seen (map ?date (fs @ [f])))"
      by (simp only: c)
    finally show ?thesis .
  qed
qed

lemma kickoff_sort_key: "js_sort kickoff_cmp xs = sort_key kickoff_time xs"
  by (intro js_sort_sort_key) (simp add: kickoff_cmp_def int_diff_pos)

lemma fixturesByDate_eq:
  "fixturesByDate tz fs =
     map (\<lambda>d. (d, sort_key kickoff_time (filter (\<lambda>f. toDateString tz (kickoff_time f) = d) fs)))
       (first_seen (map (\<lambda>f. toDateString tz (kickoff_time f)) fs))"
  by (simp add: fixturesByDate_def group_fixtures_eq kickoff_sort_key comp_def)

lemmas eval_fixtures =
  fixturesByDate_def group_fixtures_def gwFixtures_def toDateString_def utc_def utc_plus_1_def
  fx_def gw_def js_sort_def kickoff_cmp_def int_diff_def

lemma mset_filter_disjoint:
  "(\<And>x. \<not> (P x \<and> Q x)) \<Longrightarrow>
   mset (filter P xs) + mset (filter Q xs) = mset (filter (\<lambda>x. P x \<or> Q x) xs)"
  by (induction xs) auto

lemma mset_by_key:
  "distinct ks \<Longrightarrow>
   (\<Sum>d\<leftarrow>ks. mset (filter (\<lambda>x. g x = d) xs)) = mset (filter (\<lambda>x. g x \<in> set ks) xs)"
proof (induction ks)
  case Nil
  show ?case by simp
next
  case (Cons k ks)
  then have ih: "(\<Sum>d\<leftarrow>ks. mset (filter (\<lambda>x. g x = d) xs)) = mset (filter (\<lambda>x. g x \<in> set ks) xs)"
    and k: "k \<notin> set ks" by simp_all
  have "mset (filter (\<lambda>x. g x = k) xs) + mset (filter (\<lambda>x. g x \<in> set ks) xs)
      = mset (filter (\<lambda>x. g x = k \<or> g x \<in> set ks) xs)"
    using k by (intro mset_filter_disjoint) auto
  with ih show ?case by simp
qed

lemma mset_groups:
  "mset (concat (map snd (fixturesByDate tz fs))) = mset fs"
proof -
  let ?date = "\<lambda>f. toDateString tz (kickoff_time f)"
  have "mset (concat (map snd (fixturesByDate tz fs)))
      = (\<Sum>d\<leftarrow>first_seen (map ?date fs). mset (filter (\<lambda>f. ?date f = d) fs))"
    by (simp add: fixturesByDate_eq mset_concat comp_def)
  also have "\<dots> = mset (filter (\<lambda>f. ?date f \<in> set (first_seen (map ?date fs))) fs)"
    using distinct_first_seen [of "map ?date fs"] by (rule mset_by_key)
  also have "filter (\<lambda>f. ?date f \<in> set (first_seen (map ?date fs))) fs = fs"
    by (simp add: set_first_seen)
  finally show ?thesis .
qed

lemma sorted_first_seen: "sorted xs \<Longrightarrow> sorted (first_seen xs)"
proof (induction xs rule: rev_induct)
  case Nil
  show ?case by (simp add: first_seen_def)
next
  case (snoc d xs)
  then have "sorted xs" "\<forall>x\<in>set xs. x \<le> d"
    by (simp_all add: sorted_append)
  with snoc.IH show ?case
    by (simp add: first_seen_snoc sorted_append set_first_seen)
qed

lemma fst_fixturesByDate:
  "map fst (fixturesByDate tz fs) = first_seen (map (\<lambda>f. toDateString tz (kickoff_time f)) fs)"
  by (simp add: fixturesByDate_eq comp_def)

lemma group_of_fixturesByDate:
  assumes "(date, dayFixtures) \<in> set (fixturesByDate tz fs)"
  shows "dayFixtures \<noteq> [] \<and> (\<forall>f\<in>set dayFixtures. toDateString tz (kickoff_time f) = date)
       \<and> sorted (map kickoff_time dayFixtures)"
proof -
  let ?date = "\<lambda>f. toDateString tz (kickoff_time f)"
  from assms have d: "date \<in> set (map ?date fs)"
    and eq: "dayFixtures = sort_key kickoff_time (filter (\<lambda>f. ?date f = date) fs)"
    unfolding fixturesByDate_eq by (auto simp: set_first_seen)
  from d obtain f where "f \<in> set fs" "?date f = date" by auto
  then have "f \<in> set (filter (\<lambda>f. ?date f = date) fs)" by simp
  then have "0 < length (filter (\<lambda>f. ?date f = date) fs)"
    by (rule length_pos_if_in_set)
  then have "dayFixtures \<noteq> []" unfolding eq by (simp del: length_greater_0_conv flip: length_greater_0_conv)
  moreover have "\<forall>f\<in>set dayFixtures. ?date f = date" unfolding eq by simp
  moreover have "sorted (map kickoff_time dayFixtures)" unfolding eq by simp
  ultimately show ?thesis by blast
qed

text \<open>
  Claim C3, as stated, on two fixtures of the reference gameweek listed with the later
  day first: the groups come out in that order, the later date before the earlier one.
\<close>

theorem groups_order_counterexample:
  "map fst (fixturesByDate utc (gwFixtures (gw 1 True False False) later_first)) = [1, 0]
   \<and> \<not> sorted (map fst (fixturesByDate utc (gwFixtures (gw 1 True False False) later_first)))"
  by (simp add: eval_fixtures later_first_def)

text \<open>
  Claim C3, amended. For every fixture list and reference gameweek the groups hold
  exactly the fixtures whose \<^verbatim>\<open>event\<close> is the id of the gameweek (none with \<^verbatim>\<open>null\<close>), each
  in the group of its date; the dates of the groups are distinct and stand in the order
  in which they first occur in the input, which is ascending whenever the input is in
  date order; no group is empty and each is in ascending order of kickoff; and when no
  fixture is selected the result is the empty object.
\<close>

theorem fixturesByDate_groups:
  "mset (concat (map snd (fixturesByDate tz (gwFixtures currentGW fixtures))))
      = mset (filter (\<lambda>f. event f = Some (id_ev currentGW)) fixtures)
   \<and> map fst (fixturesByDate tz (gwFixtures currentGW fixtures))
      = first_seen (map (\<lambda>f. toDateString tz (kickoff_time f)) (gwFixtures currentGW fixtures))
   \<and> distinct (map fst (fixturesByDate tz (gwFixtures currentGW fixtures)))
   \<and> (\<forall>(date, dayFixtures) \<in> set (fixturesByDate tz (gwFixtures currentGW fixtures)).
        dayFixtures \<noteq> []
        \<and> (\<forall>f\<in>set dayFixtures. toDateString tz (kickoff_time f) = date)
        \<and> sorted (map kickoff_time dayFixtures))
   \<and> (sorted (map (\<lambda>f. toDateString tz (kickoff_time f)) (gwFixtures currentGW fixtures)) \<longrightarrow>
        sorted (map fst (fixturesByDate tz (gwFixtures currentGW fixtures))))
   \<and> (gwFixtures currentGW fixtures = [] \<longrightarrow>
        fixturesByDate tz (gwFixtures currentGW fixtures) = [])"
proof (intro conjI impI)
  show "mset (concat (map snd (fixturesByDate tz (gwFixtures currentGW fixtures))))
      = mset (filter (\<lambda>f. event f = Some (id_ev currentGW)) fixtures)"
    unfolding mset_groups by (simp add: gwFixtures_def)
  show "map fst (fixturesByDate tz (gwFixtures currentGW fixtures))
      = first_seen (map (\<lambda>f. toDateString tz (kickoff_time f)) (gwFixtures currentGW fixtures))"
    by (rule fst_fixturesByDate)
  show "distinct (map fst (fixturesByDate tz (gwFixtures currentGW fixtures)))"
    unfolding fst_fixturesByDate by (rule distinct_first_seen)
  show "\<forall>(date, dayFixtures) \<in> set (fixturesByDate tz (gwFixtures currentGW fixtures)).
        dayFixtures \<noteq> []
        \<and> (\<forall>f\<in>set dayFixtures. toDateString tz (kickoff_time f) = date)
        \<and> sorted (map kickoff_time dayFixtures)"
    using group_of_fixturesByDate [of _ _ tz "gwFixtures currentGW fixtures"] by blast
next
  assume "sorted (map (\<lambda>f. toDateString tz (kickoff_time f)) (gwFixtures currentGW fixtures))"
  then show "sorted (map fst (fixturesByDate tz (gwFixtures currentGW fixtures)))"
    unfolding fst_fixturesByDate by (rule sorted_first_seen)
next
  assume "gwFixtures currentGW fixtures = []"
  then show "fixturesByDate tz (gwFixtures currentGW fixtures) = []"
    by (simp add: fixturesByDate_def group_fixtures_def)
qed

theorem fixturesByDate_groups_witness:
  "sorted (map (\<lambda>f. toDateString utc (kickoff_time f)) (gwFixtures (gw 1 True False False) listed_fixtures))
   \<and> fixturesByDate utc (gwFixtures (gw 1 True False False) listed_fixtures)
      = [(0, [fx 1 (Some 1) 3600000, fx 2 (Some 1) 7200000]), (1, [fx 4 (Some 1) 90000000])]
   \<and> sorted (map fst (fixturesByDate utc (gwFixtures (gw 1 True False False) listed_fixtures)))
   \<and> sorted (map kickoff_time [fx 1 (Some 1) 3600000, fx 2 (Some 1) 7200000])
   \<and> gwFixtures (gw 2 True False False) later_first = []
   \<and> fixturesByDate utc (gwFixtures (gw 2 True False False) later_first) = []"
proof -
  have s: "sorted (map (\<lambda>f. toDateString utc (kickoff_time f))
      (gwFixtures (gw 1 True False False) listed_fixtures))"
    by (simp add: eval_fixtures listed_fixtures_def)
  have v: "fixturesByDate utc (gwFixtures (gw 1 True False False) listed_fixtures)
      = [(0, [fx 1 (Some 1) 3600000, fx 2 (Some 1) 7200000]), (1, [fx 4 (Some 1) 90000000])]"
    by (simp add: eval_fixtures listed_fixtures_def)
  have e: "gwFixtures (gw 2 True False False) later_first = []"
    by (simp add: eval_fixtures later_first_def)
  have a: "sorted (map fst (fixturesByDate utc (gwFixtures (gw 1 True False False) listed_fixtures)))"
    using fixturesByDate_groups [of utc "gw 1 True False False" listed_fixtures] s by blast
  have b: "sorted (map kickoff_time [fx 1 (Some 1) 3600000, fx 2 (Some 1) 7200000])"
    using fixturesByDate_groups [of utc "gw 1 True False False" listed_fixtures]
    unfolding v by simp
  have c: "fixturesByDate utc (gwFixtures (gw 2 True False False) later_first) = []"
    using fixturesByDate_groups [of utc "gw 2 True False False" later_first] e by blast
  from s v e a b c show ?thesis by blast
qed

section \<open>The date of a fixture and the zone of the machine\<close>

text \<open>
  Claim C4, run on two fixtures that kick off at 23:30 and 00:30 UTC. On a machine set to
  UTC they fall into two groups; on a machine one hour east they fall into one. The time
  the page prints for the first, under the label \<^verbatim>\<open>UTC\<close>, is 23:30 on the one machine and
  00:30 on the other.
\<close>

theorem date_key_machine_zone:
  "fixturesByDate utc midnight_fixtures
      = [(20491, [fx 1 (Some 1) 1770507000000]), (20492, [fx 2 (Some 1) 1770510600000])]
   \<and> fixturesByDate utc_plus_1 midnight_fixtures
      = [(20492, [fx 1 (Some 1) 1770507000000, fx 2 (Some 1) 1770510600000])]
   \<and> formatKickoff utc 1770507000000 = 23 * 60 + 30
   \<and> formatKickoff utc_plus_1 1770507000000 = 30"
  by (simp add: eval_fixtures midnight_fixtures_def formatKickoff_def)

section \<open>Properties of the rankings\<close>












section \<open>Stability\<close>




section \<open>The form filter\<close>











section \<open>Malformed numbers and unknown codes\<close>

















lemma injuries_sound:
  assumes "p \<in> set (injuries players)"
  shows "p \<in> set players \<and> injuries_filter p"
proof -
  have "set (injuries players) \<subseteq> set (filter injuries_filter players)"
    unfolding injuries_def
    using set_take_subset [of 8 "js_sort injuries_cmp (filter injuries_filter players)"]
    by (simp only: set_js_sort)
  with assms show ?thesis by auto
qed





section \<open>The store is only extended\<close>

lemma prefix_nth: "prefix h h' \<Longrightarrow> a < length h \<Longrightarrow> h' ! a = h ! a"
  by (auto simp: prefix_def nth_append)

lemmas arr_defs = arr_new_def arr_spread_def arr_filter_def arr_slice_def arr_sort_def arr_push_def

lemma topTransfersIn_st_yields:
  "yields h (topTransfersIn_st p h) (topTransfersIn (h ! p))"
  by (simp add: yields_def topTransfersIn_st_def topTransfersIn_def arr_defs Let_def nth_append)

lemma topTransfersOut_st_yields:
  "yields h (topTransfersOut_st p h) (topTransfersOut (h ! p))"
  by (simp add: yields_def topTransfersOut_st_def topTransfersOut_def arr_defs Let_def nth_append)

lemma formPlayers_st_yields:
  "yields h (formPlayers_st p h) (formPlayers (h ! p))"
  by (simp add: yields_def formPlayers_st_def formPlayers_def arr_defs Let_def nth_append)

lemma injuries_st_yields:
  "p < length h \<Longrightarrow> yields h (injuries_st p h) (injuries (h ! p))"
  by (simp add: yields_def injuries_st_def injuries_def arr_defs Let_def nth_append)

lemma priceRisers_st_yields:
  "yields h (priceRisers_st p h) (priceRisers (h ! p))"
  by (simp add: yields_def priceRisers_st_def priceRisers_def arr_defs Let_def nth_append)

lemma priceFallers_st_yields:
  "yields h (priceFallers_st p h) (priceFallers (h ! p))"
  by (simp add: yields_def priceFallers_st_def priceFallers_def arr_defs Let_def nth_append)

lemma prefix_update:
  assumes "prefix h0 h" "length h0 \<le> a"
  shows "prefix h0 (h[a := v])"
proof -
  from assms(1) obtain zs where h: "h = h0 @ zs" by (auto simp: prefix_def)
  have "h[a := v] = h0 @ zs[a - length h0 := v]"
    unfolding h using assms(2) by (simp add: list_update_append)
  then show ?thesis by (simp add: prefix_def)
qed

lemma push_date_fresh:
  "date \<notin> fst ` set xs \<Longrightarrow> push_date date f xs = xs @ [(date, [f])]"
  by (induction xs) auto

lemma not_in_snd: "a \<notin> snd ` set obj \<Longrightarrow> (d, c) \<in> set obj \<Longrightarrow> a \<noteq> c"
  by force

lemma update_other:
  assumes "a \<notin> snd ` set obj"
  shows "\<forall>(d, c)\<in>set obj. (h[a := v]) ! c = h ! c"
proof -
  have "(h[a := v]) ! c = h ! c" if "(d, c) \<in> set obj" for d c
  proof -
    from assms that have "a \<noteq> c" by (rule not_in_snd)
    then show ?thesis by simp
  qed
  then show ?thesis by blast
qed

lemma read_obj_cong:
  assumes "\<forall>(d, a)\<in>set obj. h' ! a = h ! a"
  shows "read_obj h' obj = read_obj h obj"
  unfolding read_obj_def using assms by (intro map_cong) auto

lemma read_obj_push:
  assumes "distinct (map snd obj)" "map_of obj date = Some a" "\<forall>(d, b)\<in>set obj. b < length h"
  shows "read_obj (h[a := h ! a @ [f]]) obj = push_date date f (read_obj h obj)"
  using assms
proof (induction obj)
  case Nil
  then show ?case by simp
next
  case (Cons e obj)
  obtain k b where e: "e = (k, b)" by (cases e)
  show ?case
  proof (cases "k = date")
    case True
    with Cons.prems(2) e have ba: "b = a" by simp
    from Cons.prems(1) e ba have "a \<notin> snd ` set obj" by simp
    then have "\<forall>(d, c)\<in>set obj. (h[a := h ! a @ [f]]) ! c = h ! c"
      by (rule update_other)
    then have "read_obj (h[a := h ! a @ [f]]) obj = read_obj h obj"
      by (rule read_obj_cong)
    moreover from Cons.prems(3) e ba have "a < length h" by simp
    ultimately show ?thesis
      using True e ba by (simp add: read_obj_def)
  next
    case False
    with Cons.prems(2) e have m: "map_of obj date = Some a" by simp
    then have "(date, a) \<in> set obj" by (rule map_of_SomeD)
    then have "a \<in> snd ` set obj" by force
    with Cons.prems(1) e have "b \<noteq> a" by auto
    moreover have "read_obj (h[a := h ! a @ [f]]) obj = push_date date f (read_obj h obj)"
      using Cons.IH Cons.prems m by simp
    ultimately show ?thesis
      using False e by (simp add: read_obj_def)
  qed
qed

lemma group_step_inv:
  assumes "obj_inv h0 obj h" "group_step tz (obj, h) f = (obj', h')"
  shows "obj_inv h0 obj' h'
       \<and> read_obj h' obj' = push_date (toDateString tz (kickoff_time f)) f (read_obj h obj)"
proof -
  let ?date = "toDateString tz (kickoff_time f)"
  from assms(1) have pre: "prefix h0 h"
    and rng: "\<forall>(d, a)\<in>set obj. length h0 \<le> a \<and> a < length h"
    and df: "distinct (map fst obj)" and ds: "distinct (map snd obj)"
    by (simp_all add: obj_inv_def list_all_iff)
  show ?thesis
  proof (cases "map_of obj ?date")
    case None
    with assms(2) have o: "obj' = obj @ [(?date, length h)]" and h: "h' = h @ [[f]]"
      by (simp_all add: group_step_def arr_defs Let_def)
    from None have fresh: "?date \<notin> fst ` set obj" by (simp add: map_of_eq_None_iff)
    from rng have nh: "length h \<notin> snd ` set obj" by force
    from pre have le: "length h0 \<le> length h" by (rule prefix_length_le)
    have "prefix h0 h'" unfolding h using pre by (rule prefix_prefix)
    moreover have "list_all (\<lambda>(d, a). length h0 \<le> a \<and> a < length h') obj'"
      unfolding o h using rng le by (auto simp: list_all_iff)
    moreover have "distinct (map fst obj')" unfolding o using df fresh by simp
    moreover have "distinct (map snd obj')" unfolding o using ds nh by simp
    moreover have "read_obj h' obj' = push_date ?date f (read_obj h obj)"
    proof -
      have "\<forall>(d, a)\<in>set obj. h' ! a = h ! a"
        unfolding h using rng by (auto simp: nth_append)
      then have "read_obj h' obj = read_obj h obj" by (rule read_obj_cong)
      then have "read_obj h' obj' = read_obj h obj @ [(?date, [f])]"
        unfolding o by (simp add: read_obj_def h)
      moreover have "?date \<notin> fst ` set (read_obj h obj)"
        using fresh by (force simp: read_obj_def)
      ultimately show ?thesis by (simp add: push_date_fresh)
    qed
    ultimately show ?thesis by (simp add: obj_inv_def)
  next
    case (Some a)
    with assms(2) have o: "obj' = obj" and h: "h' = h[a := h ! a @ [f]]"
      by (simp_all add: group_step_def arr_defs Let_def)
    from Some have "(?date, a) \<in> set obj" by (rule map_of_SomeD)
    with rng have a: "length h0 \<le> a" "a < length h" by auto
    have "prefix h0 h'" unfolding h using pre a(1) by (rule prefix_update)
    moreover have "list_all (\<lambda>(d, a). length h0 \<le> a \<and> a < length h') obj'"
      unfolding o h using rng by (auto simp: list_all_iff)
    moreover have "read_obj h' obj' = push_date ?date f (read_obj h obj)"
      unfolding o h using ds Some rng by (intro read_obj_push) auto
    ultimately show ?thesis using df ds o by (simp add: obj_inv_def)
  qed
qed

lemma group_loop:
  assumes "obj_inv h0 obj h" "foldl (group_step tz) (obj, h) fs = (obj', h')"
  shows "obj_inv h0 obj' h'
       \<and> read_obj h' obj'
         = foldl (\<lambda>acc f. push_date (toDateString tz (kickoff_time f)) f acc) (read_obj h obj) fs"
  using assms
proof (induction fs arbitrary: obj h)
  case Nil
  then show ?case by simp
next
  case (Cons f fs)
  obtain obj1 h1 where s: "group_step tz (obj, h) f = (obj1, h1)"
    by (cases "group_step tz (obj, h) f")
  with Cons.prems(1) have i: "obj_inv h0 obj1 h1"
    and r: "read_obj h1 obj1 = push_date (toDateString tz (kickoff_time f)) f (read_obj h obj)"
    using group_step_inv [of h0 obj h tz f obj1 h1] by simp_all
  from Cons.prems(2) s have "foldl (group_step tz) (obj1, h1) fs = (obj', h')" by simp
  with i have "obj_inv h0 obj' h'
       \<and> read_obj h' obj'
         = foldl (\<lambda>acc f. push_date (toDateString tz (kickoff_time f)) f acc) (read_obj h1 obj1) fs"
    by (rule Cons.IH)
  then show ?case by (simp add: r)
qed

lemma sort_days_other: "a \<notin> snd ` set obj \<Longrightarrow> sort_days obj h ! a = h ! a"
proof (induction obj arbitrary: h)
  case Nil
  show ?case by (simp add: sort_days_def)
next
  case (Cons e obj)
  obtain k b where e: "e = (k, b)" by (cases e)
  with Cons.prems have "b \<noteq> a" "a \<notin> snd ` set obj" by auto
  moreover have "sort_days (e # obj) h = sort_days obj (arr_sort kickoff_cmp b h)"
    by (simp add: sort_days_def e)
  ultimately show ?case using Cons.IH [of "arr_sort kickoff_cmp b h"]
    by (simp add: arr_sort_def)
qed

lemma sort_days_inv:
  assumes "obj_inv h0 obj h"
  shows "prefix h0 (sort_days obj h)
       \<and> read_obj (sort_days obj h) obj
         = map (\<lambda>(date, dayFixtures). (date, js_sort kickoff_cmp dayFixtures)) (read_obj h obj)"
  using assms
proof (induction obj arbitrary: h)
  case Nil
  then show ?case by (simp add: sort_days_def obj_inv_def read_obj_def)
next
  case (Cons e obj)
  obtain k b where e: "e = (k, b)" by (cases e)
  let ?h1 = "arr_sort kickoff_cmp b h"
  from Cons.prems e have pre: "prefix h0 h" and b: "length h0 \<le> b" "b < length h"
    and nb: "b \<notin> snd ` set obj"
    and rest: "list_all (\<lambda>(d, a). length h0 \<le> a \<and> a < length h) obj"
      "distinct (map fst obj)" "distinct (map snd obj)"
    by (simp_all add: obj_inv_def)
  have step: "sort_days (e # obj) h = sort_days obj ?h1"
    by (simp add: sort_days_def e)
  have pre1: "prefix h0 ?h1" unfolding arr_sort_def using pre b(1) by (rule prefix_update)
  have "obj_inv h0 obj ?h1"
    using pre1 rest by (simp add: obj_inv_def arr_sort_def)
  then have ih: "prefix h0 (sort_days obj ?h1)"
    "read_obj (sort_days obj ?h1) obj
       = map (\<lambda>(date, dayFixtures). (date, js_sort kickoff_cmp dayFixtures)) (read_obj ?h1 obj)"
    using Cons.IH [of ?h1] by simp_all
  have "\<forall>(d, a)\<in>set obj. ?h1 ! a = h ! a"
    unfolding arr_sort_def using nb by (rule update_other)
  then have same: "read_obj ?h1 obj = read_obj h obj" by (rule read_obj_cong)
  have "sort_days obj ?h1 ! b = ?h1 ! b" using nb by (rule sort_days_other)
  also have "\<dots> = js_sort kickoff_cmp (h ! b)" using b(2) by (simp add: arr_sort_def)
  finally have hd: "sort_days obj ?h1 ! b = js_sort kickoff_cmp (h ! b)" .
  show ?case
    unfolding step using ih(1) ih(2) same hd e by (simp add: read_obj_def)
qed

lemma fixturesByDate_st_yields:
  assumes "fixturesByDate_st tz gwF h = (obj, h')"
  shows "prefix h h' \<and> read_obj h' obj = fixturesByDate tz (h ! gwF)"
proof -
  obtain obj1 h1 where l: "foldl (group_step tz) ([], h) (h ! gwF) = (obj1, h1)"
    by (cases "foldl (group_step tz) ([], h) (h ! gwF)")
  with assms have o: "obj = obj1" and h': "h' = sort_days obj1 h1"
    by (auto simp: fixturesByDate_st_def)
  have "obj_inv h [] h" by (simp add: obj_inv_def)
  then have "obj_inv h obj1 h1
       \<and> read_obj h1 obj1
         = foldl (\<lambda>acc f. push_date (toDateString tz (kickoff_time f)) f acc) (read_obj h [])
             (h ! gwF)"
    using l by (rule group_loop)
  then have i: "obj_inv h obj1 h1"
    and r: "read_obj h1 obj1 = group_fixtures tz (h ! gwF)"
    by (simp_all add: read_obj_def group_fixtures_def)
  from i show ?thesis
    unfolding o h' using sort_days_inv [of h obj1 h1] r by (simp add: fixturesByDate_def)
qed

lemma prefix_chain: "prefix a b \<Longrightarrow> prefix b c \<Longrightarrow> prefix a c"
  by (auto simp: prefix_def)

lemma yields_prefix: "yields h r v \<Longrightarrow> r = (a, h') \<Longrightarrow> prefix h h'"
  by (simp add: yields_def)

lemma yields_value:
  "yields h r v \<Longrightarrow> r = (a, h') \<Longrightarrow> prefix h' h'' \<Longrightarrow> h'' ! a = v"
  using prefix_nth [of h' h'' a] by (simp add: yields_def)

lemma arr_filter_yields: "yields h (arr_filter P a h) (filter P (h ! a))"
  by (simp add: yields_def arr_defs)

lemma buildHTML_st_steps:
  assumes "buildHTML_st tz r s = Inr (res, s')"
  obtains currentGW gwF fa1 obj fa2 tin pa1 tout pa2 frm pa3 inj pa4 ris pa5 fal pa6
  where "getCurrentGameweek (gameweek_arrays s ! events_ref r) = Some currentGW"
    and "arr_filter (\<lambda>f. event f = Some (id_ev currentGW)) (fixtures_ref r) (fixture_arrays s)
          = (gwF, fa1)"
    and "fixturesByDate_st tz gwF fa1 = (obj, fa2)"
    and "topTransfersIn_st (players_ref r) (player_arrays s) = (tin, pa1)"
    and "topTransfersOut_st (players_ref r) pa1 = (tout, pa2)"
    and "formPlayers_st (players_ref r) pa2 = (frm, pa3)"
    and "injuries_st (players_ref r) pa3 = (inj, pa4)"
    and "priceRisers_st (players_ref r) pa4 = (ris, pa5)"
    and "priceFallers_st (players_ref r) pa5 = (fal, pa6)"
    and "res = \<lparr>currentGW_val = currentGW, gwFixtures_ref = gwF, fixturesByDate_obj = obj,
                 topTransfersIn_ref = tin, topTransfersOut_ref = tout,
                 formPlayers_ref = frm, injuries_ref = inj,
                 priceRisers_ref = ris, priceFallers_ref = fal\<rparr>"
    and "s' = s\<lparr>player_arrays := pa6, fixture_arrays := fa2\<rparr>"
proof -
  from assms obtain currentGW
    where g: "getCurrentGameweek (gameweek_arrays s ! events_ref r) = Some currentGW"
    by (cases "getCurrentGameweek (gameweek_arrays s ! events_ref r)")
      (simp_all add: buildHTML_st_def)
  obtain gwF fa1 where 1: "arr_filter (\<lambda>f. event f = Some (id_ev currentGW)) (fixtures_ref r)
      (fixture_arrays s) = (gwF, fa1)"
    by (cases "arr_filter (\<lambda>f. event f = Some (id_ev currentGW)) (fixtures_ref r)
      (fixture_arrays s)")
  obtain obj fa2 where 2: "fixturesByDate_st tz gwF fa1 = (obj, fa2)"
    by (cases "fixturesByDate_st tz gwF fa1")
  obtain tin pa1 where 3: "topTransfersIn_st (players_ref r) (player_arrays s) = (tin, pa1)"
    by (cases "topTransfersIn_st (players_ref r) (player_arrays s)")
  obtain tout pa2 where 4: "topTransfersOut_st (players_ref r) pa1 = (tout, pa2)"
    by (cases "topTransfersOut_st (players_ref r) pa1")
  obtain frm pa3 where 5: "formPlayers_st (players_ref r) pa2 = (frm, pa3)"
    by (cases "formPlayers_st (players_ref r) pa2")
  obtain inj pa4 where 6: "injuries_st (players_ref r) pa3 = (inj, pa4)"
    by (cases "injuries_st (players_ref r) pa3")
  obtain ris pa5 where 7: "priceRisers_st (players_ref r) pa4 = (ris, pa5)"
    by (cases "priceRisers_st (players_ref r) pa4")
  obtain fal pa6 where 8: "priceFallers_st (players_ref r) pa5 = (fal, pa6)"
    by (cases "priceFallers_st (players_ref r) pa5")
  from assms have "res = \<lparr>currentGW_val = currentGW, gwFixtures_ref = gwF, fixturesByDate_obj = obj,
                 topTransfersIn_ref = tin, topTransfersOut_ref = tout,
                 formPlayers_ref = frm, injuries_ref = inj,
                 priceRisers_ref = ris, priceFallers_ref = fal\<rparr>"
    and "s' = s\<lparr>player_arrays := pa6, fixture_arrays := fa2\<rparr>"
    by (simp_all add: buildHTML_st_def g 1 2 3 4 5 6 7 8)
  with g 1 2 3 4 5 6 7 8 show thesis by (rule that)
qed

lemma buildHTML_st_frame:
  assumes "buildHTML_st tz r s = Inr (res, s')"
  shows "prefix (player_arrays s) (player_arrays s') \<and> prefix (fixture_arrays s) (fixture_arrays s')
       \<and> gameweek_arrays s' = gameweek_arrays s \<and> team_arrays s' = team_arrays s"
proof -
  from assms obtain currentGW gwF fa1 obj fa2 tin pa1 tout pa2 frm pa3 inj pa4 ris pa5 fal pa6
    where g: "getCurrentGameweek (gameweek_arrays s ! events_ref r) = Some currentGW"
      and f1: "arr_filter (\<lambda>f. event f = Some (id_ev currentGW)) (fixtures_ref r)
        (fixture_arrays s) = (gwF, fa1)"
      and f2: "fixturesByDate_st tz gwF fa1 = (obj, fa2)"
      and p1: "topTransfersIn_st (players_ref r) (player_arrays s) = (tin, pa1)"
      and p2: "topTransfersOut_st (players_ref r) pa1 = (tout, pa2)"
      and p3: "formPlayers_st (players_ref r) pa2 = (frm, pa3)"
      and p4: "injuries_st (players_ref r) pa3 = (inj, pa4)"
      and p5: "priceRisers_st (players_ref r) pa4 = (ris, pa5)"
      and p6: "priceFallers_st (players_ref r) pa5 = (fal, pa6)"
      and res: "res = \<lparr>currentGW_val = currentGW, gwFixtures_ref = gwF, fixturesByDate_obj = obj,
                 topTransfersIn_ref = tin, topTransfersOut_ref = tout,
                 formPlayers_ref = frm, injuries_ref = inj,
                 priceRisers_ref = ris, priceFallers_ref = fal\<rparr>"
      and s': "s' = s\<lparr>player_arrays := pa6, fixture_arrays := fa2\<rparr>"
    by (rule buildHTML_st_steps)
  have "prefix (fixture_arrays s) fa1"
    using arr_filter_yields f1 by (rule yields_prefix)
  moreover have "prefix fa1 fa2"
    using fixturesByDate_st_yields [OF f2] by blast
  ultimately have fx: "prefix (fixture_arrays s) fa2" by (rule prefix_chain)
  have "prefix (player_arrays s) pa1"
    using topTransfersIn_st_yields p1 by (rule yields_prefix)
  moreover have "prefix pa1 pa2"
    using topTransfersOut_st_yields p2 by (rule yields_prefix)
  ultimately have "prefix (player_arrays s) pa2" by (rule prefix_chain)
  moreover have "prefix pa2 pa3"
    using formPlayers_st_yields p3 by (rule yields_prefix)
  ultimately have "prefix (player_arrays s) pa3" by (rule prefix_chain)
  moreover have "prefix pa3 pa4"
  proof -
    have "prefix pa3 (snd (injuries_st (players_ref r) pa3))"
      by (simp add: injuries_st_def arr_defs Let_def)
    then show ?thesis by (simp add: p4)
  qed
  ultimately have "prefix (player_arrays s) pa4" by (rule prefix_chain)
  moreover have "prefix pa4 pa5"
    using priceRisers_st_yields p5 by (rule yields_prefix)
  ultimately have "prefix (player_arrays s) pa5" by (rule prefix_chain)
  moreover have "prefix pa5 pa6"
    using priceFallers_st_yields p6 by (rule yields_prefix)
  ultimately have "prefix (player_arrays s) pa6" by (rule prefix_chain)
  with fx show ?thesis by (simp add: s')
qed

lemma buildHTML_st_total:
  assumes "gameweek_arrays s ! events_ref r \<noteq> []"
  shows "\<exists>res s'. buildHTML_st tz r s = Inr (res, s')"
proof -
  from assms obtain g where "getCurrentGameweek (gameweek_arrays s ! events_ref r) = Some g"
    using getCurrentGameweek_None [of "gameweek_arrays s ! events_ref r"]
    by (cases "getCurrentGameweek (gameweek_arrays s ! events_ref r)") simp_all
  then show ?thesis
    by (simp add: buildHTML_st_def Let_def split: prod.splits)
qed

text \<open>
  The store program computes what the value-level definitions compute: the arrays at the
  addresses it returns hold the rankings and the groups of the snapshot it was given.
\<close>

lemma buildHTML_st_refines:
  assumes "valid_refs r s" and "buildHTML_st tz r s = Inr (res, s')"
  shows "getCurrentGameweek (bootstrap_events (snapshot_at r s)) = Some (currentGW_val res)"
    and "read_obj (fixture_arrays s') (fixturesByDate_obj res)
       = fixturesByDate tz (gwFixtures (currentGW_val res) (data_fixtures (snapshot_at r s)))"
    and "player_arrays s' ! topTransfersIn_ref res = topTransfersIn (bootstrap_elements (snapshot_at r s))"
    and "player_arrays s' ! topTransfersOut_ref res = topTransfersOut (bootstrap_elements (snapshot_at r s))"
    and "player_arrays s' ! formPlayers_ref res = formPlayers (bootstrap_elements (snapshot_at r s))"
    and "player_arrays s' ! injuries_ref res = injuries (bootstrap_elements (snapshot_at r s))"
    and "player_arrays s' ! priceRisers_ref res = priceRisers (bootstrap_elements (snapshot_at r s))"
    and "player_arrays s' ! priceFallers_ref res = priceFallers (bootstrap_elements (snapshot_at r s))"
proof -
  from assms(2) obtain currentGW gwF fa1 obj fa2 tin pa1 tout pa2 frm pa3 inj pa4 ris pa5 fal pa6
    where g: "getCurrentGameweek (gameweek_arrays s ! events_ref r) = Some currentGW"
      and f1: "arr_filter (\<lambda>f. event f = Some (id_ev currentGW)) (fixtures_ref r)
        (fixture_arrays s) = (gwF, fa1)"
      and f2: "fixturesByDate_st tz gwF fa1 = (obj, fa2)"
      and p1: "topTransfersIn_st (players_ref r) (player_arrays s) = (tin, pa1)"
      and p2: "topTransfersOut_st (players_ref r) pa1 = (tout, pa2)"
      and p3: "formPlayers_st (players_ref r) pa2 = (frm, pa3)"
      and p4: "injuries_st (players_ref r) pa3 = (inj, pa4)"
      and p5: "priceRisers_st (players_ref r) pa4 = (ris, pa5)"
      and p6: "priceFallers_st (players_ref r) pa5 = (fal, pa6)"
      and res: "res = \<lparr>currentGW_val = currentGW, gwFixtures_ref = gwF, fixturesByDate_obj = obj,
                 topTransfersIn_ref = tin, topTransfersOut_ref = tout,
                 formPlayers_ref = frm, injuries_ref = inj,
                 priceRisers_ref = ris, priceFallers_ref = fal\<rparr>"
      and s': "s' = s\<lparr>player_arrays := pa6, fixture_arrays := fa2\<rparr>"
    by (rule buildHTML_st_steps)
  let ?h = "player_arrays s" and ?p = "players_ref r"
  from assms(1) have pv: "?p < length ?h" by (simp add: valid_refs_def)
  have y1: "yields ?h (topTransfersIn_st ?p ?h) (topTransfersIn (?h ! ?p))"
    by (rule topTransfersIn_st_yields)
  have y2: "yields pa1 (topTransfersOut_st ?p pa1) (topTransfersOut (pa1 ! ?p))"
    by (rule topTransfersOut_st_yields)
  have y3: "yields pa2 (formPlayers_st ?p pa2) (formPlayers (pa2 ! ?p))"
    by (rule formPlayers_st_yields)
  have y5: "yields pa4 (priceRisers_st ?p pa4) (priceRisers (pa4 ! ?p))"
    by (rule priceRisers_st_yields)
  have y6: "yields pa5 (priceFallers_st ?p pa5) (priceFallers (pa5 ! ?p))"
    by (rule priceFallers_st_yields)
  have q1: "prefix ?h pa1" using y1 p1 by (rule yields_prefix)
  have q2: "prefix pa1 pa2" using y2 p2 by (rule yields_prefix)
  have q3: "prefix pa2 pa3" using y3 p3 by (rule yields_prefix)
  have h3: "prefix ?h pa3" using q1 q2 q3 prefix_chain by blast
  then have pv3: "?p < length pa3" using pv prefix_length_le [of ?h pa3] by simp
  have y4: "yields pa3 (injuries_st ?p pa3) (injuries (pa3 ! ?p))"
    using pv3 by (rule injuries_st_yields)
  have q4: "prefix pa3 pa4" using y4 p4 by (rule yields_prefix)
  have q5: "prefix pa4 pa5" using y5 p5 by (rule yields_prefix)
  have q6: "prefix pa5 pa6" using y6 p6 by (rule yields_prefix)
  have r6: "prefix pa6 pa6" by simp
  have r5: "prefix pa5 pa6" by (rule q6)
  have r4: "prefix pa4 pa6" using q5 r5 by (rule prefix_chain)
  have r3: "prefix pa3 pa6" using q4 r4 by (rule prefix_chain)
  have r2: "prefix pa2 pa6" using q3 r3 by (rule prefix_chain)
  have r1: "prefix pa1 pa6" using q2 r2 by (rule prefix_chain)
  have e1: "pa1 ! ?p = ?h ! ?p" using q1 pv by (rule prefix_nth)
  have h2: "prefix ?h pa2" using q1 q2 by (rule prefix_chain)
  have e2: "pa2 ! ?p = ?h ! ?p" using h2 pv by (rule prefix_nth)
  have e3: "pa3 ! ?p = ?h ! ?p" using h3 pv by (rule prefix_nth)
  have h4: "prefix ?h pa4" using h3 q4 by (rule prefix_chain)
  have e4: "pa4 ! ?p = ?h ! ?p" using h4 pv by (rule prefix_nth)
  have h5: "prefix ?h pa5" using h4 q5 by (rule prefix_chain)
  have e5: "pa5 ! ?p = ?h ! ?p" using h5 pv by (rule prefix_nth)
  show "getCurrentGameweek (bootstrap_events (snapshot_at r s)) = Some (currentGW_val res)"
    using g by (simp add: snapshot_at_def res)
  have "fa1 ! gwF = gwFixtures currentGW (fixture_arrays s ! fixtures_ref r)"
    using f1 by (auto simp: arr_defs gwFixtures_def)
  then show "read_obj (fixture_arrays s') (fixturesByDate_obj res)
       = fixturesByDate tz (gwFixtures (currentGW_val res) (data_fixtures (snapshot_at r s)))"
    using fixturesByDate_st_yields [OF f2] by (simp add: s' res snapshot_at_def)
  show "player_arrays s' ! topTransfersIn_ref res = topTransfersIn (bootstrap_elements (snapshot_at r s))"
    using yields_value [OF y1 p1 r1] by (simp add: s' res snapshot_at_def)
  show "player_arrays s' ! topTransfersOut_ref res = topTransfersOut (bootstrap_elements (snapshot_at r s))"
    using yields_value [OF y2 p2 r2] by (simp add: s' res snapshot_at_def e1)
  show "player_arrays s' ! formPlayers_ref res = formPlayers (bootstrap_elements (snapshot_at r s))"
    using yields_value [OF y3 p3 r3] by (simp add: s' res snapshot_at_def e2)
  show "player_arrays s' ! injuries_ref res = injuries (bootstrap_elements (snapshot_at r s))"
    using yields_value [OF y4 p4 r4] by (simp add: s' res snapshot_at_def e3)
  show "player_arrays s' ! priceRisers_ref res = priceRisers (bootstrap_elements (snapshot_at r s))"
    using yields_value [OF y5 p5 r5] by (simp add: s' res snapshot_at_def e4)
  show "player_arrays s' ! priceFallers_ref res = priceFallers (bootstrap_elements (snapshot_at r s))"
    using yields_value [OF y6 p6 r6] by (simp add: s' res snapshot_at_def e5)
qed

text \<open>
  Claim C10. No operation of the pipeline mutates the snapshot. After the selector, the
  grouping and the six rankings have run, the four arrays of the snapshot hold what they
  held before, element for element; indeed every array that existed before the run is
  unchanged, and the run has only allocated new ones. (A run that fails does so at the
  selector's result, before any array is written.)
\<close>

theorem snapshot_not_mutated:
  assumes "valid_refs r s" and "buildHTML_st tz r s = Inr (res, s')"
  shows "snapshot_at r s' = snapshot_at r s
       \<and> prefix (player_arrays s) (player_arrays s') \<and> prefix (fixture_arrays s) (fixture_arrays s')
       \<and> gameweek_arrays s' = gameweek_arrays s \<and> team_arrays s' = team_arrays s"
proof -
  from assms(2) have fr: "prefix (player_arrays s) (player_arrays s')"
    "prefix (fixture_arrays s) (fixture_arrays s')"
    "gameweek_arrays s' = gameweek_arrays s" "team_arrays s' = team_arrays s"
    using buildHTML_st_frame [of tz r s res s'] by simp_all
  from assms(1) have "players_ref r < length (player_arrays s)"
    "fixtures_ref r < length (fixture_arrays s)"
    by (simp_all add: valid_refs_def)
  with fr(1,2) have "player_arrays s' ! players_ref r = player_arrays s ! players_ref r"
    "fixture_arrays s' ! fixtures_ref r = fixture_arrays s ! fixtures_ref r"
    by (simp_all add: prefix_nth)
  with fr show ?thesis by (simp add: snapshot_at_def)
qed

theorem snapshot_not_mutated_witness:
  "valid_refs sample_refs sample_store
   \<and> (\<exists>res s'. buildHTML_st utc sample_refs sample_store = Inr (res, s')
        \<and> snapshot_at sample_refs s' = snapshot_at sample_refs sample_store
        \<and> prefix (player_arrays sample_store) (player_arrays s'))
   \<and> arr_sort transfers_in_cmp (players_ref sample_refs) (player_arrays sample_store)
      \<noteq> player_arrays sample_store"
proof -
  have v: "valid_refs sample_refs sample_store"
    by (simp add: valid_refs_def sample_refs_def sample_store_def)
  have "gameweek_arrays sample_store ! events_ref sample_refs \<noteq> []"
    by (simp add: sample_refs_def sample_store_def)
  then obtain res s' where run: "buildHTML_st utc sample_refs sample_store = Inr (res, s')"
    using buildHTML_st_total [of sample_store sample_refs utc] by blast
  have m: "arr_sort transfers_in_cmp (players_ref sample_refs) (player_arrays sample_store)
      \<noteq> player_arrays sample_store"
    by (simp add: arr_sort_def sample_refs_def sample_store_def three_players_def js_sort_def
        transfers_in_cmp_def int_diff_def pl_def)
  from snapshot_not_mutated [OF v run] v run m show ?thesis by blast
qed

end
